theory Spec2Isabelle
  imports
    Complex_Main
    "HOL-Library.Char_ord"
    "HOL-Library.List_Lexorder"
    "HOL-Library.AList"
    "HOL-Library.Multiset"
    "HOL-Library.Sublist"
    "HOL-Library.Word"
begin

section \<open>Package config: identifiers, operations, results\<close>

text \<open>
  An \<open>ID\<close> is a Go string and is compared bytewise (\<open>slice[i] < slice[j]\<close> in the report):
  the lexicographic order on \<open>char list\<close> over the byte order on \<open>char\<close>.
  \<open>Operation\<close> is declared \<open>type Operation int\<close> with the constants \<open>Upload\<close>,
  \<open>Download\<close>, \<open>Delete\<close> numbered by \<open>iota\<close>; any other integer is a value of the type
  too, and \<open>String\<close> has a default branch for it.
\<close>

type_synonym ID = string

type_synonym Operation = int

definition Upload :: Operation where
  "Upload = 0"

definition Download :: Operation where
  "Download = 1"

definition Delete :: Operation where
  "Delete = 2"

definition Operation_String :: "Operation \<Rightarrow> string" where
  "Operation_String operation =
     (if operation = Upload then ''Upload''
      else if operation = Download then ''Download''
      else if operation = Delete then ''Delete''
      else '''')"

text \<open>
  \<open>Result\<close>: times are nanosecond counts (\<open>time.Duration\<close> is an \<open>int64\<close> of nanoseconds).
\<close>

record Result =
  StartTime :: int
  Duration :: int
  Success :: bool
  Error :: string

text \<open>
  A failure of the program: a non-nil Go \<open>error\<close>, which the program observes only through
  its message (\<open>err.Error()\<close>), or a run-time panic.
\<close>

datatype error = Err string | Panic string

section \<open>Package report: the table\<close>

definition writeBreak :: "string \<Rightarrow> string" where
  "writeBreak builder = builder @ ''\<newline>''"

definition writeWithBreak :: "string \<Rightarrow> string \<Rightarrow> string" where
  "writeWithBreak builder s = writeBreak (builder @ s)"

text \<open>
  \<open>strings.Repeat\<close> panics on a negative count.
\<close>

definition strings_Repeat :: "string \<Rightarrow> int \<Rightarrow> error + string" where
  "strings_Repeat s n =
     (if n < 0 then Inl (Panic ''strings: negative Repeat count'')
      else Inr (concat (replicate (nat n) s)))"

text \<open>
  \<open>maxColumnLenghts\<close> is a \<open>map[int]int\<close>: an association list with distinct keys, read
  with the zero default of a Go map.
\<close>

type_synonym columnLengths = "(nat \<times> int) list"

definition getLength :: "columnLengths \<Rightarrow> nat \<Rightarrow> int" where
  "getLength m i = (case map_of m i of None \<Rightarrow> 0 | Some v \<Rightarrow> v)"

definition padding :: int where
  "padding = 5"

text \<open>The inner loop of the first pass: \<open>for i, item := range row\<close>.\<close>

fun rangeItems :: "string list \<Rightarrow> nat \<Rightarrow> columnLengths \<Rightarrow> columnLengths" where
  "rangeItems [] i m = m"
| "rangeItems (item # items) i m =
     rangeItems items (Suc i)
       (if int (length item) > getLength m i then AList.update i (int (length item)) m else m)"

text \<open>The first pass over the rows, with its early return.\<close>

fun scanRows :: "string list list \<Rightarrow> int \<Rightarrow> columnLengths \<Rightarrow> error + (int \<times> columnLengths)" where
  "scanRows [] numColumns m = Inr (numColumns, m)"
| "scanRows (row # rows) numColumns m =
     (let numColumns' = (if numColumns = 0 then int (length row) else numColumns)
      in if int (length row) \<noteq> numColumns' then Inl (Err ''Mismatched column numbers'')
         else scanRows rows numColumns' (rangeItems row 0 m))"

text \<open>
  The second pass. \<open>writeItems\<close> is the loop over one row (\<open>n\<close> is \<open>len(row)\<close>),
  \<open>writeRows\<close> the loop over the rows (\<open>i\<close> is the row index).
\<close>

fun writeItems :: "string list \<Rightarrow> nat \<Rightarrow> nat \<Rightarrow> columnLengths \<Rightarrow> string \<Rightarrow> error + string" where
  "writeItems [] i n m table = Inr table"
| "writeItems (item # items) i n m table =
     (case (if int i < int n - 1
            then strings_Repeat '' '' (getLength m i - int (length item) + padding)
            else Inr ''\<newline>'') of
        Inl e \<Rightarrow> Inl e
      | Inr postItem \<Rightarrow> writeItems items (Suc i) n m (table @ item @ postItem))"

fun writeRows :: "string list list \<Rightarrow> nat \<Rightarrow> string \<Rightarrow> int \<Rightarrow> columnLengths \<Rightarrow> string \<Rightarrow> error + string" where
  "writeRows [] i headerSeperator numColumns m table = Inr table"
| "writeRows (row # rows) i headerSeperator numColumns m table =
     (case writeItems row 0 (length row) m table of
        Inl e \<Rightarrow> Inl e
      | Inr table' \<Rightarrow>
          if i = 0 \<and> headerSeperator \<noteq> ''''
          then (let totalLength = (numColumns - 1) * padding + sum_list (map snd m)
                in case strings_Repeat headerSeperator totalLength of
                     Inl e \<Rightarrow> Inl e
                   | Inr line \<Rightarrow>
                       writeRows rows (Suc i) headerSeperator numColumns m (writeWithBreak table' line))
          else writeRows rows (Suc i) headerSeperator numColumns m table')"

definition MakeTable :: "string list list \<Rightarrow> string \<Rightarrow> error + string" where
  "MakeTable rows headerSeperator =
     (case scanRows rows 0 [] of
        Inl e \<Rightarrow> Inl e
      | Inr (numColumns, m) \<Rightarrow> writeRows rows 0 headerSeperator numColumns m '''')"

text \<open>
  The layout of a table in the words of the specification, for rows that all have the
  header's number of columns: the width of a column is the largest length found in it; every
  cell but the last of a line is filled with spaces to that width plus five; the last cell
  ends the line; a rule made of the separator follows the header line.
\<close>

definition spec_columnWidth :: "string list list \<Rightarrow> nat \<Rightarrow> nat" where
  "spec_columnWidth rows j = Max (set (map (\<lambda>row. length (row ! j)) rows))"

fun spec_paddedLine :: "(nat \<Rightarrow> nat) \<Rightarrow> nat \<Rightarrow> string list \<Rightarrow> string" where
  "spec_paddedLine w j [] = []"
| "spec_paddedLine w j [item] = item @ ''\<newline>''"
| "spec_paddedLine w j (item # items) =
     item @ replicate (w j + 5 - length item) CHR '' '' @ spec_paddedLine w (Suc j) items"

definition spec_separatorLine :: "string list list \<Rightarrow> string \<Rightarrow> string" where
  "spec_separatorLine rows sep =
     (if sep = [] then []
      else concat (replicate (sum_list (map (spec_columnWidth rows) [0..<length (hd rows)])
                                + 5 * (length (hd rows) - 1)) sep)
           @ ''\<newline>'')"

definition spec_tableText :: "string list list \<Rightarrow> string \<Rightarrow> string" where
  "spec_tableText rows sep =
     spec_paddedLine (spec_columnWidth rows) 0 (hd rows) @ spec_separatorLine rows sep
     @ concat (map (spec_paddedLine (spec_columnWidth rows) 0) (tl rows))"

text \<open>
  The invariant of \<open>maxColumnLenghts\<close> in a table of \<open>n\<close> columns: the keys of a map are
  distinct, and they are column indices.
\<close>

definition wfLengths :: "nat \<Rightarrow> columnLengths \<Rightarrow> bool" where
  "wfLengths n m \<longleftrightarrow> distinct (map fst m) \<and> fst ` set m \<subseteq> {0..<n}"


section \<open>Package report: the result store and the report\<close>

text \<open>
  \<open>formatResultForRow\<close> computes the throughput in \<open>float64\<close> and prints it with
  \<open>strconv.FormatFloat\<close>; it prints a duration with \<open>time.Duration.String\<close>. These belong to
  the Go library, not to the repository: they are parameters of the model, collected in a
  record over the type \<open>'f\<close> that stands for \<open>float64\<close>. Every statement below holds for all
  values of the parameters.
\<close>

record 'f golib =
  float64 :: "int \<Rightarrow> 'f"
  f_mul :: "'f \<Rightarrow> 'f \<Rightarrow> 'f"
  f_div :: "'f \<Rightarrow> 'f \<Rightarrow> 'f"
  Duration_Seconds :: "int \<Rightarrow> 'f"
  Duration_String :: "int \<Rightarrow> string"
  FormatFloat :: "'f \<Rightarrow> char \<Rightarrow> int \<Rightarrow> int \<Rightarrow> string"

text \<open>
  The three-level store \<open>map[ID]map[Operation]map[ID]*Result\<close>. A Go map is an association
  list here, ranged over in list order; a \<open>*Result\<close> is an optional \<open>Result\<close> (\<open>None\<close> is the
  nil pointer). Reading a missing key of a map, also of a nil map, gives the zero value.
\<close>

type_synonym endpointResults = "(ID \<times> Result option) list"

type_synonym operationResults = "(Operation \<times> endpointResults) list"

type_synonym fileTestResults = "(ID \<times> operationResults) list"

record TextReporter =
  reporter_results :: fileTestResults
  reporter_fileTestSizes :: "ID \<rightharpoonup> int"

definition NewTextReporter :: "(ID \<rightharpoonup> int) \<Rightarrow> TextReporter" where
  "NewTextReporter fileTestSizes =
     \<lparr>reporter_results = [], reporter_fileTestSizes = fileTestSizes\<rparr>"

text \<open>
  \<open>Report\<close> on the store: the two \<open>make\<close>s of missing inner maps and the assignment. It
  returns a nil error always.
\<close>

definition storeResult ::
  "fileTestResults \<Rightarrow> Operation \<Rightarrow> ID \<Rightarrow> ID \<Rightarrow> Result option \<Rightarrow> fileTestResults" where
  "storeResult results operation fileTestID endpointID result =
     (let operationResults = (case map_of results fileTestID of None \<Rightarrow> [] | Some m \<Rightarrow> m);
          endpointResults = (case map_of operationResults operation of None \<Rightarrow> [] | Some m \<Rightarrow> m)
      in AList.update fileTestID
           (AList.update operation (AList.update endpointID result endpointResults)
              operationResults)
           results)"

definition Report ::
  "TextReporter \<Rightarrow> Operation \<Rightarrow> ID \<Rightarrow> ID \<Rightarrow> Result option \<Rightarrow> error option \<times> TextReporter" where
  "Report s operation fileTestID endpointID result =
     (None, s\<lparr>reporter_results :=
                 storeResult (reporter_results s) operation fileTestID endpointID result\<rparr>)"

text \<open>\<open>results[fileTestID][operation][endpointID]\<close> and \<open>fileTestSizes[fileTestID]\<close>.\<close>

definition lookupResult :: "fileTestResults \<Rightarrow> ID \<Rightarrow> Operation \<Rightarrow> ID \<Rightarrow> Result option" where
  "lookupResult results fileTestID operation endpointID =
     (case map_of results fileTestID of
        None \<Rightarrow> None
      | Some operationResults \<Rightarrow>
          (case map_of operationResults operation of
             None \<Rightarrow> None
           | Some endpointResults \<Rightarrow>
               (case map_of endpointResults endpointID of None \<Rightarrow> None | Some result \<Rightarrow> result)))"

definition lookupSize :: "(ID \<rightharpoonup> int) \<Rightarrow> ID \<Rightarrow> int" where
  "lookupSize fileTestSizes fileTestID =
     (case fileTestSizes fileTestID of None \<Rightarrow> 0 | Some n \<Rightarrow> n)"

definition formatResultForRow :: "'f golib \<Rightarrow> Operation \<Rightarrow> int \<Rightarrow> Result option \<Rightarrow> string" where
  "formatResultForRow L operation fileTestSize result =
     (case result of
        None \<Rightarrow> ''-''
      | Some r \<Rightarrow>
          if Error r \<noteq> '''' then ''ERR''
          else if operation = Delete then Duration_String L (Duration r)
          else (let megabits =
                      f_div L (f_div L (f_mul L (float64 L fileTestSize) (float64 L 8))
                                       (float64 L 1000))
                              (float64 L 1000);
                    seconds = Duration_Seconds L (Duration r)
                in FormatFloat L (f_div L megabits seconds) CHR ''f'' 2 64 @ '' Mbps''))"

text \<open>
  \<open>uniqueSortedIDs\<close>. A slice with its \<open>seen\<close> map is a pair; \<open>appendUnseen\<close> is the
  test-and-append that the source repeats for the three kinds of key. The three nested
  \<open>range\<close> loops follow, then the three sorts. The elements of each slice are distinct,
  so the order that \<open>sort.Slice\<close> produces is the one order that \<open>sort\<close> produces.
\<close>

type_synonym 'a uniq = "'a list \<times> 'a set"

definition appendUnseen :: "'a \<Rightarrow> 'a uniq \<Rightarrow> 'a uniq" where
  "appendUnseen x u = (if x \<in> snd u then u else (fst u @ [x], insert x (snd u)))"

fun rangeEndpointResults :: "endpointResults \<Rightarrow> ID uniq \<Rightarrow> ID uniq" where
  "rangeEndpointResults [] es = es"
| "rangeEndpointResults ((endpointID, result) # rest) es =
     rangeEndpointResults rest (appendUnseen endpointID es)"

fun rangeOperationResults ::
  "operationResults \<Rightarrow> Operation uniq \<times> ID uniq \<Rightarrow> Operation uniq \<times> ID uniq" where
  "rangeOperationResults [] acc = acc"
| "rangeOperationResults ((operation, endpointResults) # rest) acc =
     rangeOperationResults rest
       (appendUnseen operation (fst acc), rangeEndpointResults endpointResults (snd acc))"

fun rangeResults ::
  "fileTestResults \<Rightarrow> ID uniq \<times> Operation uniq \<times> ID uniq \<Rightarrow> ID uniq \<times> Operation uniq \<times> ID uniq" where
  "rangeResults [] acc = acc"
| "rangeResults ((fileTestID, operationResults) # rest) acc =
     rangeResults rest
       (appendUnseen fileTestID (fst acc), rangeOperationResults operationResults (snd acc))"

definition uniqueSortedIDs :: "fileTestResults \<Rightarrow> ID list \<times> ID list \<times> Operation list" where
  "uniqueSortedIDs results =
     (case rangeResults results (([], {}), ([], {}), ([], {})) of
        ((fileTestIDs, seenFileTestIDs), (operations, seenOperations), (endpointIDs, seenEndpointIDs)) \<Rightarrow>
          (sort fileTestIDs, sort endpointIDs, sort operations))"

text \<open>
  \<open>formatResults\<close>, loop by loop: the cells of one row (over the endpoints), the rows of one
  table (over the operations), the sections (over the file tests). The size is read, and
  the error returned, inside the innermost loop.
\<close>

definition filePrefix :: string where
  "filePrefix = ''File: ''"

fun formatCells ::
  "'f golib \<Rightarrow> (ID \<rightharpoonup> int) \<Rightarrow> fileTestResults \<Rightarrow> ID \<Rightarrow> Operation \<Rightarrow> ID list \<Rightarrow> string list
   \<Rightarrow> error + string list" where
  "formatCells L fileTestSizes results fileTestID operation [] row = Inr row"
| "formatCells L fileTestSizes results fileTestID operation (endpointID # rest) row =
     (let result = lookupResult results fileTestID operation endpointID;
          fileTestSize = lookupSize fileTestSizes fileTestID
      in if fileTestSize = 0
         then Inl (Err (''Unknown fileTestSize for '' @ fileTestID))
         else formatCells L fileTestSizes results fileTestID operation rest
                (row @ [formatResultForRow L operation fileTestSize result]))"

fun formatRows ::
  "'f golib \<Rightarrow> (ID \<rightharpoonup> int) \<Rightarrow> fileTestResults \<Rightarrow> ID \<Rightarrow> ID list \<Rightarrow> Operation list
   \<Rightarrow> string list list \<Rightarrow> error + string list list" where
  "formatRows L fileTestSizes results fileTestID endpointIDs [] rows = Inr rows"
| "formatRows L fileTestSizes results fileTestID endpointIDs (operation # rest) rows =
     (case formatCells L fileTestSizes results fileTestID operation endpointIDs
             [Operation_String operation] of
        Inl e \<Rightarrow> Inl e
      | Inr row \<Rightarrow>
          formatRows L fileTestSizes results fileTestID endpointIDs rest (rows @ [row]))"

fun formatFileTests ::
  "'f golib \<Rightarrow> (ID \<rightharpoonup> int) \<Rightarrow> fileTestResults \<Rightarrow> ID list \<Rightarrow> Operation list \<Rightarrow> ID list
   \<Rightarrow> string \<Rightarrow> error + string" where
  "formatFileTests L fileTestSizes results endpointIDs operations [] reportString =
     Inr reportString"
| "formatFileTests L fileTestSizes results endpointIDs operations (fileTestID # rest) reportString =
     (let stars = replicate (length filePrefix + length fileTestID) CHR ''*'';
          reportString1 = writeWithBreak reportString stars;
          reportString2 = writeWithBreak reportString1 (filePrefix @ fileTestID);
          reportString3 = writeWithBreak reportString2 stars;
          reportString4 = writeBreak reportString3;
          headerRow = foldl (\<lambda>row endpointID. row @ [endpointID]) [''Operation''] endpointIDs
      in case formatRows L fileTestSizes results fileTestID endpointIDs operations [] of
           Inl e \<Rightarrow> Inl e
         | Inr rows \<Rightarrow>
             (let tableRows = foldl (\<lambda>tableRows row. tableRows @ [row]) [headerRow] rows
              in case MakeTable tableRows ''-'' of
                   Inl e \<Rightarrow> Inl e
                 | Inr tableStr \<Rightarrow>
                     formatFileTests L fileTestSizes results endpointIDs operations rest
                       (writeWithBreak reportString4 tableStr)))"

definition formatResults :: "'f golib \<Rightarrow> (ID \<rightharpoonup> int) \<Rightarrow> fileTestResults \<Rightarrow> error + string" where
  "formatResults L fileTestSizes results =
     (case uniqueSortedIDs results of
        (fileTestIDs, endpointIDs, operations) \<Rightarrow>
          formatFileTests L fileTestSizes results endpointIDs operations fileTestIDs '''')"

definition FormatResults :: "'f golib \<Rightarrow> TextReporter \<Rightarrow> error + string" where
  "FormatResults L s = formatResults L (reporter_fileTestSizes s) (reporter_results s)"

section \<open>The Go library on the inputs of the examples\<close>

text \<open>
  The examples below are evaluated with the following values of the library parameters.
  Decimal digits are written as \<open>strconv.Itoa\<close> writes them.
\<close>

definition digitChar :: "nat \<Rightarrow> char" where
  "digitChar d = ''0123456789'' ! d"

function decimal :: "nat \<Rightarrow> string" where
  "decimal n = (if n < 10 then [digitChar n] else decimal (n div 10) @ [digitChar (n mod 10)])"
  by pat_completeness auto
termination
  by (relation "measure id") auto

declare decimal.simps [simp del]

definition strconv_Itoa :: "int \<Rightarrow> string" where
  "strconv_Itoa i = (if i < 0 then ''-'' @ decimal (nat (- i)) else decimal (nat i))"

text \<open>
  \<open>time.Duration.String\<close>: \<open>fmtFrac\<close> writes the last \<open>prec\<close> decimal digits of \<open>v\<close> after a
  point, without trailing zeros and without the point when they are all zero, and returns
  \<open>v / 10^prec\<close>; durations under a second are written in ns, \<mu>s (the two bytes C2 B5) or
  ms, the others in hours, minutes and seconds.
\<close>

fun fmtFrac :: "nat \<Rightarrow> nat \<Rightarrow> bool \<Rightarrow> string \<Rightarrow> string \<times> nat" where
  "fmtFrac v 0 print buf = ((if print then ''.'' @ buf else buf), v)"
| "fmtFrac v (Suc prec) print buf =
     (let digit = v mod 10; print' = (print \<or> digit \<noteq> 0)
      in fmtFrac (v div 10) prec print' (if print' then digitChar digit # buf else buf))"

definition time_Duration_String :: "int \<Rightarrow> string" where
  "time_Duration_String d =
     (let u = nat \<bar>d\<bar>; neg = (d < 0);
          body =
            (if u < 1000000000 then
               (if u = 0 then ''0s''
                else if u < 1000 then
                  (case fmtFrac u 0 False ''ns'' of (buf, v) \<Rightarrow> decimal v @ buf)
                else if u < 1000000 then
                  (case fmtFrac u 3 False [CHR 0xC2, CHR 0xB5, CHR ''s''] of (buf, v) \<Rightarrow> decimal v @ buf)
                else
                  (case fmtFrac u 6 False ''ms'' of (buf, v) \<Rightarrow> decimal v @ buf))
             else
               (case fmtFrac u 9 False ''s'' of
                  (buf, v) \<Rightarrow>
                    (let secs = decimal (v mod 60) @ buf; mins = v div 60
                     in if mins > 0
                        then (let ms = decimal (mins mod 60) @ ''m'' @ secs; hours = mins div 60
                              in if hours > 0 then decimal hours @ ''h'' @ ms else ms)
                        else secs)))
      in if neg \<and> u \<noteq> 0 then ''-'' @ body else body)"

text \<open>
  Floating point with exact arithmetic: the values of \<open>float64\<close> that are rational numbers,
  the infinities and NaN; the operations do not round and do not tell -0 from 0. They agree
  with \<open>float64\<close> wherever every value that arises is itself a \<open>float64\<close>, as for the sizes and
  durations of the examples. \<open>FormatFloat\<close> is given for the format \<open>'f'\<close> with a precision
  \<open>prec \<ge> 0\<close>: the nearest decimal with \<open>prec\<close> digits after the point, ties to even.
\<close>

datatype xfloat = Finite rat | PosInf | NegInf | NaN

definition xfloat_of_int :: "int \<Rightarrow> xfloat" where
  "xfloat_of_int i = Finite (of_int i)"

fun xfloat_sign :: "xfloat \<Rightarrow> int" where
  "xfloat_sign (Finite q) = (if q < 0 then -1 else if q = 0 then 0 else 1)"
| "xfloat_sign PosInf = 1"
| "xfloat_sign NegInf = -1"
| "xfloat_sign NaN = 0"

definition xfloat_inf :: "int \<Rightarrow> xfloat" where
  "xfloat_inf s = (if s < 0 then NegInf else if s = 0 then NaN else PosInf)"

fun xfloat_mul :: "xfloat \<Rightarrow> xfloat \<Rightarrow> xfloat" where
  "xfloat_mul (Finite a) (Finite b) = Finite (a * b)"
| "xfloat_mul NaN y = NaN"
| "xfloat_mul x NaN = NaN"
| "xfloat_mul x y = xfloat_inf (xfloat_sign x * xfloat_sign y)"

fun xfloat_div :: "xfloat \<Rightarrow> xfloat \<Rightarrow> xfloat" where
  "xfloat_div (Finite a) (Finite b) =
     (if b = 0 then xfloat_inf (xfloat_sign (Finite a)) else Finite (a / b))"
| "xfloat_div NaN y = NaN"
| "xfloat_div x NaN = NaN"
| "xfloat_div (Finite a) y = Finite 0"
| "xfloat_div x (Finite b) = xfloat_inf (xfloat_sign x * (if b < 0 then -1 else 1))"
| "xfloat_div x y = NaN"

definition roundHalfEven :: "rat \<Rightarrow> int" where
  "roundHalfEven q =
     (let f = \<lfloor>q\<rfloor>; r = q - of_int f
      in if r < 1 / 2 then f else if r > 1 / 2 then f + 1 else if even f then f else f + 1)"

definition padZeros :: "nat \<Rightarrow> string \<Rightarrow> string" where
  "padZeros n s = replicate (n - length s) CHR ''0'' @ s"

fun xfloat_Format :: "xfloat \<Rightarrow> char \<Rightarrow> int \<Rightarrow> int \<Rightarrow> string" where
  "xfloat_Format (Finite q) fmt prec bitSize =
     (let p = nat prec; n = nat (roundHalfEven (\<bar>q\<bar> * 10 ^ p))
      in (if q < 0 then ''-'' else '''') @ decimal (n div 10 ^ p)
         @ (if p = 0 then '''' else ''.'' @ padZeros p (decimal (n mod 10 ^ p))))"
| "xfloat_Format PosInf fmt prec bitSize = ''+Inf''"
| "xfloat_Format NegInf fmt prec bitSize = ''-Inf''"
| "xfloat_Format NaN fmt prec bitSize = ''NaN''"

definition exactLib :: "xfloat golib" where
  "exactLib =
     \<lparr>float64 = xfloat_of_int,
      f_mul = xfloat_mul,
      f_div = xfloat_div,
      Duration_Seconds = (\<lambda>d. Finite (of_int d / 1000000000)),
      Duration_String = time_Duration_String,
      FormatFloat = xfloat_Format\<rparr>"

text \<open>The results and the reports of \<open>TestTextReporter\<close>, and a deletion.\<close>

definition second :: int where
  "second = 1000000000"

definition okResult :: "int \<Rightarrow> Result" where
  "okResult d = \<lparr>StartTime = 0, Duration = d, Success = True, Error = ''''\<rparr>"

definition submitAll :: "(Operation \<times> ID \<times> ID \<times> Result option) list \<Rightarrow> fileTestResults" where
  "submitAll reports =
     foldl (\<lambda>results (operation, fileTestID, endpointID, result).
              storeResult results operation fileTestID endpointID result) [] reports"

definition testSizes1 :: "ID \<rightharpoonup> int" where
  "testSizes1 = [''ft1'' \<mapsto> 10000000, ''ft2'' \<mapsto> 20000000]"

definition testReports1 :: "(Operation \<times> ID \<times> ID \<times> Result option) list" where
  "testReports1 =
     [(Upload, ''ft1'', ''end1'', Some (okResult (5 * second))),
      (Upload, ''ft1'', ''end2'', Some (okResult (8 * second))),
      (Download, ''ft1'', ''end2'', Some (okResult (8 * second))),
      (Download, ''ft2'', ''end2'', Some (okResult (8 * second)))]"

definition testExpected1 :: string where
  "testExpected1 =
     ''*********\<newline>'' @
     ''File: ft1\<newline>'' @
     ''*********\<newline>'' @
     ''\<newline>'' @
     ''Operation     end1           end2\<newline>'' @
     ''---------------------------------------\<newline>'' @
     ''Upload        16.00 Mbps     10.00 Mbps\<newline>'' @
     ''Download      -              10.00 Mbps\<newline>'' @
     ''\<newline>'' @
     ''*********\<newline>'' @
     ''File: ft2\<newline>'' @
     ''*********\<newline>'' @
     ''\<newline>'' @
     ''Operation     end1     end2\<newline>'' @
     ''---------------------------------\<newline>'' @
     ''Upload        -        -\<newline>'' @
     ''Download      -        20.00 Mbps\<newline>'' @
     ''\<newline>''"

section \<open>The report in the words of the specification\<close>

text \<open>
  The keys of the store: the file tests, the operations and the endpoints that appear
  anywhere in it.
\<close>

definition storeFileTestIDs :: "fileTestResults \<Rightarrow> ID set" where
  "storeFileTestIDs results = fst ` set results"

definition storeOperations :: "fileTestResults \<Rightarrow> Operation set" where
  "storeOperations results = (\<Union>(fileTestID, operationResults)\<in>set results. fst ` set operationResults)"

definition storeEndpointIDs :: "fileTestResults \<Rightarrow> ID set" where
  "storeEndpointIDs results =
     (\<Union>(fileTestID, operationResults)\<in>set results.
        \<Union>(operation, endpointResults)\<in>set operationResults. fst ` set endpointResults)"

text \<open>
  A report is a sequence of sections, one per file test: the boxed title, a blank line,
  the table (a header row \<open>Operation\<close> and the endpoints, then a row per operation), a blank
  line. The text of a cell is a parameter.
\<close>

definition spec_sectionTitle :: "ID \<Rightarrow> string" where
  "spec_sectionTitle fileTestID =
     replicate (6 + length fileTestID) CHR ''*'' @ ''\<newline>'' @
     ''File: '' @ fileTestID @ ''\<newline>'' @
     replicate (6 + length fileTestID) CHR ''*'' @ ''\<newline>'' @
     ''\<newline>''"

definition spec_tableRows ::
  "(ID \<Rightarrow> Operation \<Rightarrow> ID \<Rightarrow> string) \<Rightarrow> ID list \<Rightarrow> Operation list \<Rightarrow> ID \<Rightarrow> string list list" where
  "spec_tableRows cell endpointIDs operations fileTestID =
     (''Operation'' # endpointIDs)
     # map (\<lambda>operation. Operation_String operation # map (cell fileTestID operation) endpointIDs)
         operations"

definition spec_section ::
  "(ID \<Rightarrow> Operation \<Rightarrow> ID \<Rightarrow> string) \<Rightarrow> ID list \<Rightarrow> Operation list \<Rightarrow> ID \<Rightarrow> string" where
  "spec_section cell endpointIDs operations fileTestID =
     spec_sectionTitle fileTestID
     @ spec_tableText (spec_tableRows cell endpointIDs operations fileTestID) ''-''
     @ ''\<newline>''"

definition spec_report ::
  "(ID \<Rightarrow> Operation \<Rightarrow> ID \<Rightarrow> string) \<Rightarrow> ID list \<Rightarrow> ID list \<Rightarrow> Operation list \<Rightarrow> string" where
  "spec_report cell fileTestIDs endpointIDs operations =
     concat (map (spec_section cell endpointIDs operations) fileTestIDs)"

text \<open>The invariant of a slice with its \<open>seen\<close> map.\<close>

definition uniqOk :: "'a uniq \<Rightarrow> bool" where
  "uniqOk u \<longleftrightarrow> distinct (fst u) \<and> snd u = set (fst u)"

text \<open>The text that \<open>formatResults\<close> puts in the cell of a file test, operation and endpoint.\<close>

definition cellText ::
  "'f golib \<Rightarrow> (ID \<rightharpoonup> int) \<Rightarrow> fileTestResults \<Rightarrow> ID \<Rightarrow> Operation \<Rightarrow> ID \<Rightarrow> string" where
  "cellText L fileTestSizes results fileTestID operation endpointID =
     formatResultForRow L operation (lookupSize fileTestSizes fileTestID)
       (lookupResult results fileTestID operation endpointID)"

definition unknownSize :: "ID \<Rightarrow> error" where
  "unknownSize fileTestID = Err (''Unknown fileTestSize for '' @ fileTestID)"

text \<open>The place in the store that a submission writes.\<close>

definition reportKey :: "Operation \<times> ID \<times> ID \<times> Result option \<Rightarrow> ID \<times> Operation \<times> ID" where
  "reportKey x = (case x of (operation, ft, ep, r) \<Rightarrow> (ft, operation, ep))"


text \<open>
  A store with a failed upload only, and a store with a throughput, a failure, a deletion
  and a missing result.
\<close>

definition errResult :: "int \<Rightarrow> string \<Rightarrow> Result" where
  "errResult d msg = \<lparr>StartTime = 0, Duration = d, Success = False, Error = msg\<rparr>"

definition testSizes2 :: "ID \<rightharpoonup> int" where
  "testSizes2 = [''ft1'' \<mapsto> 10000000]"

definition testReports2 :: "(Operation \<times> ID \<times> ID \<times> Result option) list" where
  "testReports2 =
     [(Upload, ''ft1'', ''end1'',
       Some \<lparr>StartTime = 0, Duration = 5 * second, Success = True, Error = ''Here is an error''\<rparr>)]"

definition testExpected2 :: string where
  "testExpected2 =
     ''*********\<newline>'' @
     ''File: ft1\<newline>'' @
     ''*********\<newline>'' @
     ''\<newline>'' @
     ''Operation     end1\<newline>'' @
     ''------------------\<newline>'' @
     ''Upload        ERR\<newline>'' @
     ''\<newline>''"

definition mixedReports :: "(Operation \<times> ID \<times> ID \<times> Result option) list" where
  "mixedReports =
     [(Delete, ''ft1'', ''end1'', Some (okResult (5 * second))),
      (Upload, ''ft1'', ''end2'', Some (errResult (3 * second) ''boom'')),
      (Upload, ''ft1'', ''end1'', Some (okResult (5 * second)))]"

definition mixedExpected :: string where
  "mixedExpected =
     ''*********\<newline>'' @
     ''File: ft1\<newline>'' @
     ''*********\<newline>'' @
     ''\<newline>'' @
     ''Operation     end1           end2\<newline>'' @
     ''---------------------------------\<newline>'' @
     ''Upload        16.00 Mbps     ERR\<newline>'' @
     ''Delete        5s             -\<newline>'' @
     ''\<newline>''"

text \<open>Two file tests without a configured size, each with a result.\<close>

definition unsizedReports :: "(Operation \<times> ID \<times> ID \<times> Result option) list" where
  "unsizedReports =
     [(Upload, ''b'', ''end1'', Some (okResult (5 * second))),
      (Upload, ''a'', ''end1'', Some (okResult (5 * second)))]"

section \<open>Package check: the runner\<close>

text \<open>
  A \<open>FileTest\<close> has four \<open>int64\<close> fields, read as signed numbers (\<open>sint\<close>); only the sum
  \<open>Seed + int64(i)\<close> can wrap around, as the addition of words does.
\<close>

type_synonym byte = "8 word"

record FileTest =
  NumParallel :: "64 word"
  Timeout :: "64 word"
  Size :: "64 word"
  Seed :: "64 word"

text \<open>
  A context is the background context or a context with a timeout (\<open>context.WithTimeout\<close>).
  The runner never looks into a context; it passes it to the storage client and to the
  reporter, and a timeout reaches the runner as the error that the client returns.
\<close>

datatype Context = Background | WithTimeout Context "64 word"

text \<open>
  The storage client is an interface; the world outside the program (the stores, the
  network, the clock) is a state of an unspecified type \<open>'w\<close>, and each method is a function of
  its arguments that returns a new state. A non-nil error is its message. A download gives
  a stream: the bytes that can be read from it, the error that ends the reading, if any,
  and the error of \<open>Close\<close>, if any.
\<close>

record Stream =
  stream_bytes :: "byte list"
  stream_readError :: "string option"
  stream_closeError :: "string option"

record 'w Client =
  Client_Upload :: "Context \<Rightarrow> string \<Rightarrow> byte list \<Rightarrow> 'w \<Rightarrow> string option \<times> 'w"
  Client_Download :: "Context \<Rightarrow> string \<Rightarrow> 'w \<Rightarrow> (string + Stream) \<times> 'w"
  Client_Delete :: "Context \<Rightarrow> string \<Rightarrow> 'w \<Rightarrow> string option \<times> 'w"

record 'w Endpoint =
  ID :: ID
  Bucket :: string
  Path :: string
  Client :: "'w Client"

type_synonym 'w reporter =
  "Context \<Rightarrow> Operation \<Rightarrow> ID \<Rightarrow> ID \<Rightarrow> Result \<Rightarrow> 'w \<Rightarrow> string option \<times> 'w"

record 'w Checker =
  endpoints :: "'w Endpoint list"
  fileTests :: "(ID \<times> FileTest) list"
  timeout :: "64 word"
  reporter :: "'w reporter"

text \<open>
  What the Go runtime and library give to the runner: the clock (nanoseconds), the bytes
  that \<open>rand.New(rand.NewSource(seed))\<close> generates, SHA-256, the quoting of \<open>%q\<close>, and the order
  in which the goroutines of one \<open>errgroup\<close> get to run. All are parameters.
\<close>

record 'w runtime =
  time_Now :: "'w \<Rightarrow> int"
  rand_bytes :: "64 word \<Rightarrow> nat \<Rightarrow> byte"
  sha256_Sum :: "byte list \<Rightarrow> byte list"
  fmt_q :: "string \<Rightarrow> string"
  schedule :: "'w \<Rightarrow> nat list"

text \<open>
  The state of a run: the world, and the calls made so far to the clients and to the
  reporter, each with its arguments; a call of \<open>Report\<close> with the error it returned.
\<close>

datatype event =
  ClientUpload ID string "byte list"
| ClientDownload ID string
| ClientDelete ID string
| Reported Operation ID ID Result "string option"

record 'w state =
  world :: 'w
  trace :: "event list"

definition callUpload ::
  "'w Endpoint \<Rightarrow> Context \<Rightarrow> string \<Rightarrow> byte list \<Rightarrow> 'w state \<Rightarrow> string option \<times> 'w state" where
  "callUpload endpoint ctx name strm s =
     (case Client_Upload (Client endpoint) ctx name strm (world s) of
        (err, w) \<Rightarrow> (err, \<lparr>world = w, trace = trace s @ [ClientUpload (ID endpoint) name strm]\<rparr>))"

definition callDownload ::
  "'w Endpoint \<Rightarrow> Context \<Rightarrow> string \<Rightarrow> 'w state \<Rightarrow> (string + Stream) \<times> 'w state" where
  "callDownload endpoint ctx name s =
     (case Client_Download (Client endpoint) ctx name (world s) of
        (r, w) \<Rightarrow> (r, \<lparr>world = w, trace = trace s @ [ClientDownload (ID endpoint) name]\<rparr>))"

definition callDelete ::
  "'w Endpoint \<Rightarrow> Context \<Rightarrow> string \<Rightarrow> 'w state \<Rightarrow> string option \<times> 'w state" where
  "callDelete endpoint ctx name s =
     (case Client_Delete (Client endpoint) ctx name (world s) of
        (err, w) \<Rightarrow> (err, \<lparr>world = w, trace = trace s @ [ClientDelete (ID endpoint) name]\<rparr>))"

definition callReport ::
  "'w Checker \<Rightarrow> Context \<Rightarrow> Operation \<Rightarrow> ID \<Rightarrow> ID \<Rightarrow> Result \<Rightarrow> 'w state
   \<Rightarrow> error option \<times> 'w state" where
  "callReport c ctx operation fileTestID endpointID result s =
     (case reporter c ctx operation fileTestID endpointID result (world s) of
        (err, w) \<Rightarrow>
          (map_option Err err,
           \<lparr>world = w,
            trace = trace s @ [Reported operation fileTestID endpointID result err]\<rparr>))"

text \<open>\<open>pathName\<close> and \<open>fileReader\<close>; a reader is the sequence of the bytes it yields.\<close>

definition pathName :: "ID \<Rightarrow> int \<Rightarrow> string" where
  "pathName id' i = id' @ strconv_Itoa i"

definition fileReader :: "'w runtime \<Rightarrow> FileTest \<Rightarrow> int \<Rightarrow> byte list" where
  "fileReader R fileTest i =
     map (rand_bytes R (Seed fileTest + word_of_int i)) [0..<nat (sint (Size fileTest))]"

definition newResultNow :: "'w runtime \<Rightarrow> 'w state \<Rightarrow> Result" where
  "newResultNow R s =
     \<lparr>StartTime = time_Now R (world s), Duration = 0, Success = False, Error = ''''\<rparr>"

definition time_Since :: "'w runtime \<Rightarrow> int \<Rightarrow> 'w state \<Rightarrow> int" where
  "time_Since R t s = time_Now R (world s) - t"

text \<open>
  \<open>runParallel\<close> starts a goroutine per index and waits for all of them; \<open>Wait\<close> returns the
  first error that a goroutine returned. Here each goroutine runs as one step, and the
  goroutines run in an order that the scheduler chooses: \<open>goroutineOrder\<close> makes a
  permutation of the indices below \<open>n\<close> out of whatever list the scheduler gives, and every
  permutation arises so.
\<close>

definition goroutineOrder :: "nat \<Rightarrow> nat list \<Rightarrow> nat list" where
  "goroutineOrder n xs =
     remdups (filter (\<lambda>i. i < n) xs) @ filter (\<lambda>i. i \<notin> set xs) [0..<n]"

fun runWorkers ::
  "(nat \<Rightarrow> 'w state \<Rightarrow> string option \<times> 'w state) \<Rightarrow> nat list \<Rightarrow> string option \<Rightarrow> 'w state
   \<Rightarrow> string option \<times> 'w state" where
  "runWorkers f [] err s = (err, s)"
| "runWorkers f (i # rest) err s =
     (case f i s of
        (e, s') \<Rightarrow> runWorkers f rest (case err of None \<Rightarrow> e | Some first \<Rightarrow> Some first) s')"

definition runParallel ::
  "'w runtime \<Rightarrow> int \<Rightarrow> (nat \<Rightarrow> 'w state \<Rightarrow> string option \<times> 'w state) \<Rightarrow> 'w state
   \<Rightarrow> string option \<times> 'w state" where
  "runParallel R numParallel f s =
     runWorkers f (goroutineOrder (nat numParallel) (schedule R (world s))) None s"

text \<open>Upload.\<close>

definition uploadWorker ::
  "'w runtime \<Rightarrow> Context \<Rightarrow> ID \<Rightarrow> FileTest \<Rightarrow> 'w Endpoint \<Rightarrow> nat \<Rightarrow> 'w state
   \<Rightarrow> string option \<times> 'w state" where
  "uploadWorker R ctx fileTestID fileTest endpoint i s =
     (let r = fileReader R fileTest (int i)
      in callUpload endpoint ctx (pathName fileTestID (int i)) r s)"

definition upload ::
  "'w runtime \<Rightarrow> Context \<Rightarrow> ID \<Rightarrow> FileTest \<Rightarrow> 'w Endpoint \<Rightarrow> 'w state \<Rightarrow> string option \<times> 'w state" where
  "upload R ctx fileTestID fileTest endpoint s =
     (let ctx' = WithTimeout ctx (Timeout fileTest)
      in runParallel R (sint (NumParallel fileTest))
           (uploadWorker R ctx' fileTestID fileTest endpoint) s)"

text \<open>
  The end of \<open>Checker.Upload\<close>, \<open>Checker.Download\<close> and \<open>Checker.Delete\<close>: the duration, the
  success flag, the error message when there is an error, and the report.
\<close>

definition finishResult :: "'w runtime \<Rightarrow> Result \<Rightarrow> string option \<Rightarrow> 'w state \<Rightarrow> Result" where
  "finishResult R result err s =
     (let result1 = result\<lparr>Duration := time_Since R (StartTime result) s\<rparr>;
          result2 = result1\<lparr>Success := (err = None)\<rparr>
      in case err of None \<Rightarrow> result2 | Some msg \<Rightarrow> result2\<lparr>Error := msg\<rparr>)"

definition Checker_Upload ::
  "'w Checker \<Rightarrow> 'w runtime \<Rightarrow> Context \<Rightarrow> ID \<Rightarrow> FileTest \<Rightarrow> 'w Endpoint \<Rightarrow> 'w state
   \<Rightarrow> error option \<times> 'w state" where
  "Checker_Upload c R ctx fileTestID fileTest endpoint s =
     (let result = newResultNow R s
      in case upload R ctx fileTestID fileTest endpoint s of
           (err, s') \<Rightarrow>
             callReport c ctx Upload fileTestID (ID endpoint) (finishResult R result err s') s')"

text \<open>Delete.\<close>

definition delWorker ::
  "Context \<Rightarrow> ID \<Rightarrow> 'w Endpoint \<Rightarrow> nat \<Rightarrow> 'w state \<Rightarrow> string option \<times> 'w state" where
  "delWorker ctx fileTestID endpoint i s = callDelete endpoint ctx (pathName fileTestID (int i)) s"

definition del ::
  "'w runtime \<Rightarrow> Context \<Rightarrow> ID \<Rightarrow> FileTest \<Rightarrow> 'w Endpoint \<Rightarrow> 'w state \<Rightarrow> string option \<times> 'w state" where
  "del R ctx fileTestID fileTest endpoint s =
     (let ctx' = WithTimeout ctx (Timeout fileTest)
      in runParallel R (sint (NumParallel fileTest)) (delWorker ctx' fileTestID endpoint) s)"

definition Checker_Delete ::
  "'w Checker \<Rightarrow> 'w runtime \<Rightarrow> Context \<Rightarrow> ID \<Rightarrow> FileTest \<Rightarrow> 'w Endpoint \<Rightarrow> 'w state
   \<Rightarrow> error option \<times> 'w state" where
  "Checker_Delete c R ctx fileTestID fileTest endpoint s =
     (let result = newResultNow R s
      in case del R ctx fileTestID fileTest endpoint s of
           (err, s') \<Rightarrow>
             callReport c ctx Delete fileTestID (ID endpoint) (finishResult R result err s') s')"

text \<open>
  Download. \<open>io.Copy\<close> from a \<open>LimitReader\<close> over the random generator into the hash returns
  no error: \<open>rand.Rand.Read\<close> and \<open>hash.Hash.Write\<close> never fail. The loop of the expected
  hashes keeps the test of that error and its return all the same.
\<close>

definition hexDigit :: "nat \<Rightarrow> char" where
  "hexDigit d = ''0123456789abcdef'' ! d"

definition fmt_x :: "byte list \<Rightarrow> string" where
  "fmt_x bs = concat (map (\<lambda>b. [hexDigit (unat b div 16), hexDigit (unat b mod 16)]) bs)"

definition io_Copy_hash :: "'w runtime \<Rightarrow> byte list \<Rightarrow> byte list \<times> string option" where
  "io_Copy_hash R r = (sha256_Sum R r, None)"

fun expectedHashesLoop ::
  "'w runtime \<Rightarrow> FileTest \<Rightarrow> nat list \<Rightarrow> byte list list \<Rightarrow> string + byte list list" where
  "expectedHashesLoop R fileTest [] expectedHashes = Inr expectedHashes"
| "expectedHashesLoop R fileTest (i # rest) expectedHashes =
     (let r = fileReader R fileTest (int i)
      in case io_Copy_hash R r of
           (expectedHash, Some err) \<Rightarrow> Inl err
         | (expectedHash, None) \<Rightarrow>
             expectedHashesLoop R fileTest rest (expectedHashes @ [expectedHash]))"

definition mismatchMessage :: "'w runtime \<Rightarrow> ID \<Rightarrow> int \<Rightarrow> byte list \<Rightarrow> byte list \<Rightarrow> string" where
  "mismatchMessage R fileTestID i expected digest =
     ''unexpected '' @ fmt_q R fileTestID @ ''/'' @ strconv_Itoa i
     @ '' file contents: expected sha256 digest '' @ fmt_x expected @ ''; got '' @ fmt_x digest"

text \<open>
  One goroutine of \<open>download\<close>. The deferred function assigns the combination of the error
  and the error of \<open>Close\<close> to the local variable \<open>err\<close> of a function literal whose result
  has no name, after the returned value is fixed: the value returned is the one of the
  \<open>return\<close> statement, and the error of \<open>Close\<close> is not in it.
\<close>

definition downloadWorker ::
  "'w runtime \<Rightarrow> Context \<Rightarrow> ID \<Rightarrow> 'w Endpoint \<Rightarrow> byte list list \<Rightarrow> nat \<Rightarrow> 'w state
   \<Rightarrow> string option \<times> 'w state" where
  "downloadWorker R ctx fileTestID endpoint expectedHashes i s =
     (case callDownload endpoint ctx (pathName fileTestID (int i)) s of
        (Inl err, s') \<Rightarrow> (Some err, s')
      | (Inr strm, s') \<Rightarrow>
          (case stream_readError strm of
             Some err \<Rightarrow> (Some err, s')
           | None \<Rightarrow>
               (let digest = sha256_Sum R (stream_bytes strm)
                in if digest \<noteq> expectedHashes ! i
                   then (Some (mismatchMessage R fileTestID (int i) (expectedHashes ! i) digest), s')
                   else (None, s'))))"

definition download ::
  "'w runtime \<Rightarrow> Context \<Rightarrow> ID \<Rightarrow> FileTest \<Rightarrow> 'w Endpoint \<Rightarrow> byte list list \<Rightarrow> 'w state
   \<Rightarrow> string option \<times> 'w state" where
  "download R ctx fileTestID fileTest endpoint expectedHashes s =
     (let ctx' = WithTimeout ctx (Timeout fileTest)
      in runParallel R (sint (NumParallel fileTest))
           (downloadWorker R ctx' fileTestID endpoint expectedHashes) s)"

definition Checker_Download ::
  "'w Checker \<Rightarrow> 'w runtime \<Rightarrow> Context \<Rightarrow> ID \<Rightarrow> FileTest \<Rightarrow> 'w Endpoint \<Rightarrow> 'w state
   \<Rightarrow> error option \<times> 'w state" where
  "Checker_Download c R ctx fileTestID fileTest endpoint s =
     (if sint (NumParallel fileTest) < 0 then (Some (Panic ''makeslice: cap out of range''), s)
      else case expectedHashesLoop R fileTest [0..<nat (sint (NumParallel fileTest))] [] of
             Inl err \<Rightarrow> (Some (Err err), s)
           | Inr expectedHashes \<Rightarrow>
               (let result = newResultNow R s
                in case download R ctx fileTestID fileTest endpoint expectedHashes s of
                     (err, s') \<Rightarrow>
                       callReport c ctx Download fileTestID (ID endpoint)
                         (finishResult R result err s') s'))"

text \<open>\<open>RunCheck\<close> and \<open>RunChecks\<close>: the defaults of the file test, then the three operations.\<close>

definition RunCheck ::
  "'w Checker \<Rightarrow> 'w runtime \<Rightarrow> Context \<Rightarrow> ID \<Rightarrow> FileTest \<Rightarrow> 'w Endpoint \<Rightarrow> 'w state
   \<Rightarrow> error option \<times> 'w state" where
  "RunCheck c R ctx fileTestID fileTest endpoint s =
     (let fileTest1 = (if sint (Timeout fileTest) \<le> 0 then fileTest\<lparr>Timeout := timeout c\<rparr>
                       else fileTest);
          fileTest2 = (if sint (Seed fileTest1) \<le> 0
                       then fileTest1\<lparr>Seed := word_of_int (time_Now R (world s))\<rparr>
                       else fileTest1);
          fileTest3 = (if sint (NumParallel fileTest2) \<le> 0 then fileTest2\<lparr>NumParallel := 1\<rparr>
                       else fileTest2)
      in case Checker_Upload c R ctx fileTestID fileTest3 endpoint s of
           (Some err, s1) \<Rightarrow> (Some err, s1)
         | (None, s1) \<Rightarrow>
             (case Checker_Download c R ctx fileTestID fileTest3 endpoint s1 of
                (Some err, s2) \<Rightarrow> (Some err, s2)
              | (None, s2) \<Rightarrow>
                  (case Checker_Delete c R ctx fileTestID fileTest3 endpoint s2 of
                     (Some err, s3) \<Rightarrow> (Some err, s3)
                   | (None, s3) \<Rightarrow> (None, s3))))"

fun rangeEndpoints ::
  "'w Checker \<Rightarrow> 'w runtime \<Rightarrow> Context \<Rightarrow> ID \<Rightarrow> FileTest \<Rightarrow> 'w Endpoint list \<Rightarrow> 'w state
   \<Rightarrow> error option \<times> 'w state" where
  "rangeEndpoints c R ctx fileTestID fileTest [] s = (None, s)"
| "rangeEndpoints c R ctx fileTestID fileTest (endpoint # rest) s =
     (case RunCheck c R ctx fileTestID fileTest endpoint s of
        (Some err, s') \<Rightarrow> (Some err, s')
      | (None, s') \<Rightarrow> rangeEndpoints c R ctx fileTestID fileTest rest s')"

fun rangeFileTests ::
  "'w Checker \<Rightarrow> 'w runtime \<Rightarrow> Context \<Rightarrow> (ID \<times> FileTest) list \<Rightarrow> 'w state
   \<Rightarrow> error option \<times> 'w state" where
  "rangeFileTests c R ctx [] s = (None, s)"
| "rangeFileTests c R ctx ((fileTestID, fileTest) # rest) s =
     (case rangeEndpoints c R ctx fileTestID fileTest (endpoints c) s of
        (Some err, s') \<Rightarrow> (Some err, s')
      | (None, s') \<Rightarrow> rangeFileTests c R ctx rest s')"

definition RunChecks :: "'w Checker \<Rightarrow> 'w runtime \<Rightarrow> Context \<Rightarrow> 'w state \<Rightarrow> error option \<times> 'w state" where
  "RunChecks c R ctx s = rangeFileTests c R ctx (fileTests c) s"

section \<open>The runner in the words of the specification\<close>

text \<open>
  The submissions of a sequence of calls: place, result and the error that \<open>Report\<close>
  returned, in the order of the calls.
\<close>

fun submissions :: "event list \<Rightarrow> ((Operation \<times> ID \<times> ID) \<times> Result \<times> string option) list" where
  "submissions [] = []"
| "submissions (Reported operation fileTestID endpointID result err # t) =
     ((operation, fileTestID, endpointID), result, err) # submissions t"
| "submissions (ClientUpload endpointID name strm # t) = submissions t"
| "submissions (ClientDownload endpointID name # t) = submissions t"
| "submissions (ClientDelete endpointID name # t) = submissions t"

text \<open>
  The executions of one check, and of a whole run: upload, download and delete for each
  file test and endpoint, in the order of the loops.
\<close>

definition checksOf :: "ID \<Rightarrow> ID \<Rightarrow> (Operation \<times> ID \<times> ID) list" where
  "checksOf fileTestID endpointID =
     [(Upload, fileTestID, endpointID), (Download, fileTestID, endpointID),
      (Delete, fileTestID, endpointID)]"

definition allChecks :: "'w Checker \<Rightarrow> (Operation \<times> ID \<times> ID) list" where
  "allChecks c =
     concat (map (\<lambda>(fileTestID, fileTest).
                    concat (map (\<lambda>endpoint. checksOf fileTestID (ID endpoint)) (endpoints c)))
               (fileTests c))"

text \<open>
  One result per execution, and a failed submission aborts: the places of the submissions
  in the calls \<open>t\<close> are the executions up to some point, one submission each; every
  submission but the last was accepted; without an error all executions were submitted and
  accepted; an error is the error that the last submission returned.
\<close>

definition spec_submitted :: "(Operation \<times> ID \<times> ID) list \<Rightarrow> event list \<Rightarrow> error option \<Rightarrow> bool" where
  "spec_submitted executions t err \<longleftrightarrow>
     prefix (map fst (submissions t)) executions
     \<and> list_all (\<lambda>(place, result, response). response = None) (butlast (submissions t))
     \<and> (case err of
           None \<Rightarrow> map fst (submissions t) = executions
                   \<and> list_all (\<lambda>(place, result, response). response = None) (submissions t)
         | Some e \<Rightarrow> submissions t \<noteq> []
                     \<and> map_option Err (snd (snd (last (submissions t)))) = Some e)"

text \<open>
  A client names its errors when no error that it returns, or that ends the reading of a
  stream it returns, has the empty message. The invariant of a result: success means no
  error message, and for clients that name their errors no error message means success.
\<close>

definition clientNamesErrors :: "'w Client \<Rightarrow> bool" where
  "clientNamesErrors client \<longleftrightarrow>
     (\<forall>ctx name strm w. fst (Client_Upload client ctx name strm w) \<noteq> Some '''')
     \<and> (\<forall>ctx name w. fst (Client_Delete client ctx name w) \<noteq> Some '''')
     \<and> (\<forall>ctx name w. case fst (Client_Download client ctx name w) of
                         Inl err \<Rightarrow> err \<noteq> ''''
                       | Inr strm \<Rightarrow> stream_readError strm \<noteq> Some '''')"

definition resultInvariant :: "bool \<Rightarrow> Result \<Rightarrow> bool" where
  "resultInvariant named result \<longleftrightarrow>
     (Success result \<longrightarrow> Error result = '''')
     \<and> (named \<and> Error result = '''' \<longrightarrow> Success result)"

definition runOk :: "bool \<Rightarrow> (Operation \<times> ID \<times> ID) list \<Rightarrow> event list \<Rightarrow> error option \<Rightarrow> bool" where
  "runOk named executions t err \<longleftrightarrow>
     spec_submitted executions t err
     \<and> list_all (\<lambda>(place, result, response). resultInvariant named result) (submissions t)"

section \<open>A storage client in memory, for the examples of the runner\<close>

text \<open>
  The world of the examples is a clock and the objects of one store. Every call of the
  client takes a second. The random bytes and the digest are stand-ins: a counter from the
  seed, and the bytes themselves. The goroutines run in the order of their indices.
\<close>

record memWorld =
  clock :: int
  objects :: "(string \<times> byte list) list"

definition tick :: "memWorld \<Rightarrow> memWorld" where
  "tick w = w\<lparr>clock := clock w + second\<rparr>"

definition memClient :: "memWorld Client" where
  "memClient =
     \<lparr>Client_Upload = (\<lambda>ctx name strm w.
        (None, tick (w\<lparr>objects := AList.update name strm (objects w)\<rparr>))),
      Client_Download = (\<lambda>ctx name w.
        (case map_of (objects w) name of
           None \<Rightarrow> Inl (''no object '' @ name)
         | Some bs \<Rightarrow> Inr \<lparr>stream_bytes = bs, stream_readError = None, stream_closeError = None\<rparr>,
         tick w)),
      Client_Delete = (\<lambda>ctx name w.
        (None, tick (w\<lparr>objects := AList.delete name (objects w)\<rparr>)))\<rparr>"

text \<open>A client whose deletions fail with an error of the empty message.\<close>

definition silentClient :: "memWorld Client" where
  "silentClient = memClient\<lparr>Client_Delete := (\<lambda>ctx name w. (Some '''', tick w))\<rparr>"

definition memRuntime :: "memWorld runtime" where
  "memRuntime =
     \<lparr>time_Now = clock,
      rand_bytes = (\<lambda>seed k. ucast seed + of_nat k),
      sha256_Sum = (\<lambda>bs. bs),
      fmt_q = (\<lambda>s. CHR 0x22 # s @ [CHR 0x22]),
      schedule = (\<lambda>w. [])\<rparr>"

definition memEndpoint :: "memWorld Client \<Rightarrow> memWorld Endpoint" where
  "memEndpoint client = \<lparr>ID = ''end1'', Bucket = ''bucket'', Path = '''', Client = client\<rparr>"

definition smallTest :: FileTest where
  "smallTest = \<lparr>NumParallel = 0, Timeout = 0, Size = 2, Seed = 7\<rparr>"

text \<open>A reporter that accepts every result, and one that rejects the results of downloads.\<close>

definition acceptAll :: "memWorld reporter" where
  "acceptAll ctx operation fileTestID endpointID result w = (None, w)"

definition rejectDownloads :: "memWorld reporter" where
  "rejectDownloads ctx operation fileTestID endpointID result w =
     ((if operation = Download then Some ''rejected'' else None), w)"

definition memChecker :: "memWorld Client \<Rightarrow> memWorld reporter \<Rightarrow> memWorld Checker" where
  "memChecker client rep =
     \<lparr>endpoints = [memEndpoint client], fileTests = [(''ft1'', smallTest)],
      timeout = 60000000000, reporter = rep\<rparr>"

definition start :: "memWorld state" where
  "start = \<lparr>world = \<lparr>clock = 0, objects = []\<rparr>, trace = []\<rparr>"

section \<open>The table: what \<open>MakeTable\<close> computes\<close>

lemma getLength_update: "getLength (AList.update k v m) j = (if j = k then v else getLength m j)"
  by (simp add: getLength_def update_conv')

lemma rangeItems_getLength:
  "getLength (rangeItems row i m) j =
     (if i \<le> j \<and> j < i + length row then max (getLength m j) (int (length (row ! (j - i))))
      else getLength m j)"
proof (induction row arbitrary: i m j)
  case Nil
  then show ?case by simp
next
  case (Cons item items)
  show ?case
  proof (cases "j = i")
    case True
    then show ?thesis by (simp add: Cons.IH getLength_update max_def)
  next
    case False
    then show ?thesis
      by (auto simp: Cons.IH getLength_update nth_Cons' Suc_diff_le)
  qed
qed

lemma rangeItems_wf:
  "wfLengths n m \<Longrightarrow> i + length row \<le> n \<Longrightarrow> wfLengths n (rangeItems row i m)"
proof (induction row arbitrary: i m)
  case Nil
  then show ?case by simp
next
  case (Cons item items)
  have "wfLengths n (AList.update i (int (length item)) m)"
    using Cons.prems by (auto simp: wfLengths_def distinct_update dom_update)
  with Cons show ?case by simp
qed

lemma sum_list_wfLengths:
  assumes "wfLengths n m"
  shows "sum_list (map snd m) = (\<Sum>j<n. getLength m j)"
proof -
  have d: "distinct (map fst m)" and k: "fst ` set m \<subseteq> {0..<n}"
    using assms by (auto simp: wfLengths_def)
  have "map snd m = map (getLength m) (map fst m)"
    using d by (auto simp: getLength_def)
  then have "sum_list (map snd m) = sum (getLength m) (set (map fst m))"
    using d by (simp add: sum_list_distinct_conv_sum_set del: map_map)
  also have "\<dots> = sum (getLength m) {..<n}"
  proof (rule sum.mono_neutral_left)
    show "set (map fst m) \<subseteq> {..<n}" using k by auto
    show "\<forall>i\<in>{..<n} - set (map fst m). getLength m i = 0"
      by (force simp: getLength_def split: option.splits dest: map_of_SomeD)
  qed simp
  finally show ?thesis .
qed

lemma scanRows_pos:
  "0 < n \<Longrightarrow> scanRows rows n m =
     (if \<forall>r\<in>set rows. int (length r) = n
      then Inr (n, foldl (\<lambda>m r. rangeItems r 0 m) m rows)
      else Inl (Err ''Mismatched column numbers''))"
  by (induction rows arbitrary: m) (auto simp: Let_def)

lemma foldl_rangeItems_wf:
  "wfLengths n m \<Longrightarrow> \<forall>r\<in>set rows. length r = n \<Longrightarrow>
   wfLengths n (foldl (\<lambda>m r. rangeItems r 0 m) m rows)"
  by (induction rows arbitrary: m) (auto simp: rangeItems_wf)

lemma foldl_rangeItems_getLength:
  "\<forall>r\<in>set rows. length r = n \<Longrightarrow> j < n \<Longrightarrow> 0 \<le> getLength m j \<Longrightarrow>
   getLength (foldl (\<lambda>m r. rangeItems r 0 m) m rows) j =
     max (getLength m j) (int (Max (insert 0 ((\<lambda>r. length (r ! j)) ` set rows))))"
proof (induction rows arbitrary: m)
  case Nil
  then show ?case by simp
next
  case (Cons r rows)
  have fin: "finite (insert 0 ((\<lambda>r. length (r ! j)) ` set rows))" by simp
  have "Max (insert 0 ((\<lambda>r. length (r ! j)) ` set (r # rows))) =
        Max (insert (length (r ! j)) (insert 0 ((\<lambda>r. length (r ! j)) ` set rows)))"
    by (simp add: insert_commute)
  also have "\<dots> = max (length (r ! j)) (Max (insert 0 ((\<lambda>r. length (r ! j)) ` set rows)))"
    by (rule Max_insert) (use fin in auto)
  finally have M: "Max (insert 0 ((\<lambda>r. length (r ! j)) ` set (r # rows))) =
        max (length (r ! j)) (Max (insert 0 ((\<lambda>r. length (r ! j)) ` set rows)))" .
  have "getLength (foldl (\<lambda>m r. rangeItems r 0 m) m (r # rows)) j =
        max (getLength (rangeItems r 0 m) j) (int (Max (insert 0 ((\<lambda>r. length (r ! j)) ` set rows))))"
    using Cons by (simp add: rangeItems_getLength)
  also have "getLength (rangeItems r 0 m) j = max (getLength m j) (int (length (r ! j)))"
    using Cons.prems by (simp add: rangeItems_getLength)
  finally show ?case unfolding M by (simp add: max.assoc)
qed

lemma getLength_scan_header:
  assumes "\<forall>r\<in>set rest. length r = length hdr" "j < length hdr"
  shows "getLength (foldl (\<lambda>m r. rangeItems r 0 m) [] (hdr # rest)) j = int (spec_columnWidth (hdr # rest) j)"
proof -
  let ?S = "(\<lambda>r. length (r ! j)) ` set (hdr # rest)"
  have "Max (insert 0 ?S) = max 0 (Max ?S)"
    by (rule Max_insert) auto
  then have "Max (insert 0 ?S) = Max ?S" by simp
  moreover have "getLength (foldl (\<lambda>m r. rangeItems r 0 m) [] (hdr # rest)) j =
     max (getLength [] j) (int (Max (insert 0 ?S)))"
    by (rule foldl_rangeItems_getLength[where n = "length hdr"]) (use assms in \<open>auto simp: getLength_def\<close>)
  ultimately show ?thesis by (simp add: getLength_def spec_columnWidth_def)
qed

lemma writeItems_paddedLine:
  "i + length items = n \<Longrightarrow>
   (\<forall>k<length items. getLength m (i + k) = int (w (i + k)) \<and> length (items ! k) \<le> w (i + k)) \<Longrightarrow>
   writeItems items i n m table = Inr (table @ spec_paddedLine w i items)"
proof (induction w i items arbitrary: table rule: spec_paddedLine.induct)
  case (1 w j)
  then show ?case by simp
next
  case (2 w j item)
  then show ?case by simp
next
  case (3 w j item v va)
  have len: "getLength m j = int (w j)" "length item \<le> w j"
    using "3.prems"(2)[rule_format, of 0] by auto
  have rest: "\<forall>k<length (v # va). getLength m (Suc j + k) = int (w (Suc j + k)) \<and>
       length ((v # va) ! k) \<le> w (Suc j + k)"
    using "3.prems"(2) by (metis add_Suc_shift length_Cons not_less_eq nth_Cons_Suc)
  have "writeItems (v # va) (Suc j) n m (table @ item @ replicate (w j + 5 - length item) CHR '' '') =
      Inr ((table @ item @ replicate (w j + 5 - length item) CHR '' '') @ spec_paddedLine w (Suc j) (v # va))"
    by (rule "3.IH") (use "3.prems" rest in auto)
  moreover have "int j < int n - 1" using "3.prems"(1) by auto
  moreover have "nat (int (w j) - int (length item) + 5) = w j + 5 - length item"
    using len by linarith
  ultimately show ?case
    using len by (simp add: strings_Repeat_def padding_def)
qed

lemma writeRows_tail:
  assumes "\<forall>r\<in>set rows. length r = n \<and> (\<forall>j<n. length (r ! j) \<le> w j)"
    and "\<forall>j<n. getLength m j = int (w j)"
  shows "writeRows rows (Suc i) sep nc m table = Inr (table @ concat (map (spec_paddedLine w 0) rows))"
  using assms(1)
proof (induction rows arbitrary: i table)
  case Nil
  then show ?case by simp
next
  case (Cons r rows)
  have "writeItems r 0 (length r) m table = Inr (table @ spec_paddedLine w 0 r)"
    by (rule writeItems_paddedLine) (use Cons.prems assms(2) in auto)
  then show ?case using Cons by simp
qed

lemma columnWidth_ge: "r \<in> set rows \<Longrightarrow> length (r ! j) \<le> spec_columnWidth rows j"
  by (simp add: spec_columnWidth_def)

lemma MakeTable_tableText:
  assumes "hdr \<noteq> []" and same: "\<forall>r\<in>set rest. length r = length hdr"
  shows "MakeTable (hdr # rest) sep = Inr (spec_tableText (hdr # rest) sep)"
proof -
  define rows where "rows = hdr # rest"
  define n where "n = length hdr"
  define m where "m = foldl (\<lambda>m r. rangeItems r 0 m) [] rows"
  define w where "w = spec_columnWidth rows"
  define K where "K = (\<Sum>j<n. w j) + 5 * (n - 1)"
  have npos: "0 < n" using assms(1) by (simp add: n_def)
  have same': "\<forall>r\<in>set rows. length r = n"
    using same by (simp add: rows_def n_def)
  have "scanRows rows 0 [] = scanRows rest (int n) (rangeItems hdr 0 [])"
    using npos by (simp add: Let_def rows_def n_def)
  also have "\<dots> = Inr (int n, foldl (\<lambda>m r. rangeItems r 0 m) (rangeItems hdr 0 []) rest)"
    using npos same by (simp add: scanRows_pos n_def)
  also have "foldl (\<lambda>m r. rangeItems r 0 m) (rangeItems hdr 0 []) rest = m"
    by (simp add: m_def rows_def)
  finally have scan: "scanRows rows 0 [] = Inr (int n, m)" .
  have wf: "wfLengths n m"
    unfolding m_def by (rule foldl_rangeItems_wf) (use same' in \<open>auto simp: wfLengths_def\<close>)
  have gl: "getLength m j = int (w j)" if "j < n" for j
    unfolding m_def w_def rows_def using getLength_scan_header[OF same] that by (simp add: n_def)
  have le: "length (r ! j) \<le> w j" if "r \<in> set rows" for r j
    unfolding w_def using that by (rule columnWidth_ge)
  have hdrline: "writeItems hdr 0 n m [] = Inr ([] @ spec_paddedLine w 0 hdr)"
    by (rule writeItems_paddedLine) (use gl le in \<open>auto simp: n_def rows_def\<close>)
  have "sum_list (map snd m) = (\<Sum>j<n. int (w j))"
    using gl by (simp add: sum_list_wfLengths[OF wf])
  then have total: "(int n - 1) * padding + sum_list (map snd m) = int K"
    using npos by (simp add: padding_def K_def)
  have tl: "writeRows rest (Suc 0) s (int n) m t =
      Inr (t @ concat (map (spec_paddedLine w 0) rest))" for t s
    by (rule writeRows_tail[where n = n]) (use le gl same in \<open>auto simp: rows_def n_def\<close>)
  have rep: "strings_Repeat sep (int k) = Inr (concat (replicate k sep))" for k
    by (simp add: strings_Repeat_def)
  have hdrline': "writeItems hdr 0 (length hdr) m [] = Inr (spec_paddedLine w 0 hdr)"
    using hdrline by (simp add: n_def)
  have W: "writeRows (hdr # rest) 0 sep (int n) m [] =
      Inr (spec_paddedLine w 0 hdr @ (if sep = [] then [] else concat (replicate K sep) @ ''\<newline>'')
           @ concat (map (spec_paddedLine w 0) rest))"
    by (simp add: hdrline' total rep tl writeWithBreak_def writeBreak_def)
  have T: "spec_tableText rows sep =
      spec_paddedLine w 0 hdr @ (if sep = [] then [] else concat (replicate K sep) @ ''\<newline>'')
           @ concat (map (spec_paddedLine w 0) rest)"
    by (simp add: spec_tableText_def spec_separatorLine_def K_def w_def n_def rows_def
        interv_sum_list_conv_sum_set_nat atLeast0LessThan)
  have "writeRows rows 0 sep (int n) m [] = Inr (spec_tableText rows sep)"
    unfolding T using W by (simp add: rows_def)
  then show ?thesis
    unfolding MakeTable_def by (simp add: scan flip: rows_def)
qed

lemma MakeTable_ragged:
  assumes "hdr \<noteq> []" and "\<exists>r\<in>set rest. length r \<noteq> length hdr"
  shows "MakeTable (hdr # rest) sep = Inl (Err ''Mismatched column numbers'')"
proof -
  have "scanRows (hdr # rest) 0 [] = scanRows rest (int (length hdr)) (rangeItems hdr 0 [])"
    using assms(1) by (simp add: Let_def)
  also have "\<dots> = Inl (Err ''Mismatched column numbers'')"
    using assms by (simp add: scanRows_pos)
  finally show ?thesis by (simp add: MakeTable_def)
qed

section \<open>The report: what \<open>uniqueSortedIDs\<close> and \<open>formatResults\<close> compute\<close>

lemma appendUnseen_ok: "uniqOk u \<Longrightarrow> uniqOk (appendUnseen x u)"
  by (auto simp: uniqOk_def appendUnseen_def)

lemma appendUnseen_set: "uniqOk u \<Longrightarrow> set (fst (appendUnseen x u)) = insert x (set (fst u))"
  by (auto simp: uniqOk_def appendUnseen_def)

lemma rangeEndpointResults_ok:
  "uniqOk es \<Longrightarrow> uniqOk (rangeEndpointResults ers es) \<and>
     set (fst (rangeEndpointResults ers es)) = set (fst es) \<union> fst ` set ers"
  by (induction ers es rule: rangeEndpointResults.induct)
     (auto simp: appendUnseen_ok appendUnseen_set)

lemma rangeOperationResults_ok:
  "uniqOk (fst acc) \<Longrightarrow> uniqOk (snd acc) \<Longrightarrow>
   uniqOk (fst (rangeOperationResults ors acc)) \<and> uniqOk (snd (rangeOperationResults ors acc)) \<and>
   set (fst (fst (rangeOperationResults ors acc))) = set (fst (fst acc)) \<union> fst ` set ors \<and>
   set (fst (snd (rangeOperationResults ors acc))) =
     set (fst (snd acc)) \<union> (\<Union>(operation, ers)\<in>set ors. fst ` set ers)"
proof (induction ors acc rule: rangeOperationResults.induct)
  case (1 acc)
  then show ?case by simp
next
  case (2 operation endpointResults rest acc)
  let ?acc = "(appendUnseen operation (fst acc), rangeEndpointResults endpointResults (snd acc))"
  have a: "uniqOk (fst ?acc)" "uniqOk (snd ?acc)"
    using 2 by (simp_all add: appendUnseen_ok rangeEndpointResults_ok)
  have b: "set (fst (fst ?acc)) = insert operation (set (fst (fst acc)))"
     "set (fst (snd ?acc)) = set (fst (snd acc)) \<union> fst ` set endpointResults"
    using 2 by (simp_all add: appendUnseen_set rangeEndpointResults_ok)
  show ?case
    using "2.IH"[OF a] b by auto
qed

lemma rangeResults_ok:
  "uniqOk (fst acc) \<Longrightarrow> uniqOk (fst (snd acc)) \<Longrightarrow> uniqOk (snd (snd acc)) \<Longrightarrow>
   uniqOk (fst (rangeResults results acc)) \<and>
   uniqOk (fst (snd (rangeResults results acc))) \<and>
   uniqOk (snd (snd (rangeResults results acc))) \<and>
   set (fst (fst (rangeResults results acc))) = set (fst (fst acc)) \<union> storeFileTestIDs results \<and>
   set (fst (fst (snd (rangeResults results acc)))) =
     set (fst (fst (snd acc))) \<union> storeOperations results \<and>
   set (fst (snd (snd (rangeResults results acc)))) =
     set (fst (snd (snd acc))) \<union> storeEndpointIDs results"
proof (induction results acc rule: rangeResults.induct)
  case (1 acc)
  then show ?case by (simp add: storeFileTestIDs_def storeOperations_def storeEndpointIDs_def)
next
  case (2 fileTestID operationResults rest acc)
  let ?acc = "(appendUnseen fileTestID (fst acc), rangeOperationResults operationResults (snd acc))"
  note r = rangeOperationResults_ok[OF "2.prems"(2,3), of operationResults]
  have a: "uniqOk (fst ?acc)" "uniqOk (fst (snd ?acc))" "uniqOk (snd (snd ?acc))"
    using 2 r by (simp_all add: appendUnseen_ok)
  have b: "set (fst (fst ?acc)) = insert fileTestID (set (fst (fst acc)))"
    using 2 by (simp add: appendUnseen_set)
  show ?case
    using "2.IH"[OF a] b r
    by (auto simp: storeFileTestIDs_def storeOperations_def storeEndpointIDs_def)
qed

lemma sort_distinct_eq: "distinct xs \<Longrightarrow> sort xs = sorted_list_of_set (set xs)"
  by (simp add: sorted_list_of_set_sort_remdups distinct_remdups_id)

lemma uniqueSortedIDs_eq:
  "uniqueSortedIDs results =
     (sorted_list_of_set (storeFileTestIDs results),
      sorted_list_of_set (storeEndpointIDs results),
      sorted_list_of_set (storeOperations results))"
proof -
  obtain f sf o' so e se where
    r: "rangeResults results (([], {}), ([], {}), ([], {})) = ((f, sf), (o', so), (e, se))"
    by (metis surj_pair)
  have "uniqOk ((f, sf)) \<and> uniqOk (o', so) \<and> uniqOk (e, se) \<and>
        set f = storeFileTestIDs results \<and> set o' = storeOperations results \<and>
        set e = storeEndpointIDs results"
    using rangeResults_ok[of "(([], {}), ([], {}), ([], {}))" results] unfolding r
    by (simp add: uniqOk_def)
  then show ?thesis
    unfolding uniqueSortedIDs_def r by (auto simp: uniqOk_def sort_distinct_eq)
qed

lemma foldl_snoc: "foldl (\<lambda>acc x. acc @ [x]) a xs = a @ xs"
  by (induction xs arbitrary: a) auto

lemma formatCells_eq:
  "formatCells L sizes results ft operation eps row =
     (if eps \<noteq> [] \<and> lookupSize sizes ft = 0 then Inl (unknownSize ft)
      else Inr (row @ map (cellText L sizes results ft operation) eps))"
  by (induction eps arbitrary: row) (auto simp: Let_def cellText_def unknownSize_def)

lemma formatRows_eq:
  "formatRows L sizes results ft eps ops rows =
     (if ops \<noteq> [] \<and> eps \<noteq> [] \<and> lookupSize sizes ft = 0 then Inl (unknownSize ft)
      else Inr (rows @ map (\<lambda>operation. Operation_String operation
                                # map (cellText L sizes results ft operation) eps) ops))"
  by (induction ops arbitrary: rows) (auto simp: formatCells_eq)

lemma sectionTitle_eq:
  "writeBreak (writeWithBreak (writeWithBreak (writeWithBreak rs
      (replicate (length filePrefix + length ft) CHR ''*'')) (filePrefix @ ft))
      (replicate (length filePrefix + length ft) CHR ''*'')) = rs @ spec_sectionTitle ft"
proof -
  have "length filePrefix = 6"
    by (simp add: filePrefix_def)
  then show ?thesis
    by (simp add: writeBreak_def writeWithBreak_def spec_sectionTitle_def)
       (simp add: filePrefix_def)
qed

lemma MakeTable_tableRows:
  "MakeTable (spec_tableRows cell eps ops ft) sep =
     Inr (spec_tableText (spec_tableRows cell eps ops ft) sep)"
  unfolding spec_tableRows_def by (rule MakeTable_tableText) auto

lemma formatFileTests_eq:
  "formatFileTests L sizes results eps ops fts rs =
     (if ops \<noteq> [] \<and> eps \<noteq> [] \<and> (\<exists>ft\<in>set fts. lookupSize sizes ft = 0)
      then Inl (unknownSize (hd (filter (\<lambda>ft. lookupSize sizes ft = 0) fts)))
      else Inr (rs @ spec_report (cellText L sizes results) fts eps ops))"
proof (induction fts arbitrary: rs)
  case Nil
  then show ?case by (simp add: spec_report_def)
next
  case (Cons ft fts)
  let ?stars = "replicate (length filePrefix + length ft) CHR ''*''"
  let ?rows = "map (\<lambda>operation. Operation_String operation
                                # map (cellText L sizes results ft operation) eps) ops"
  have tr: "foldl (\<lambda>tableRows row. tableRows @ [row])
              [foldl (\<lambda>row endpointID. row @ [endpointID]) [''Operation''] eps] ?rows
            = spec_tableRows (cellText L sizes results) eps ops ft"
    by (simp add: foldl_snoc spec_tableRows_def)
  show ?case
  proof (cases "ops \<noteq> [] \<and> eps \<noteq> [] \<and> lookupSize sizes ft = 0")
    case True
    then show ?thesis by (simp add: formatRows_eq Let_def)
  next
    case False
    have step: "formatFileTests L sizes results eps ops (ft # fts) rs =
      formatFileTests L sizes results eps ops fts
        (rs @ spec_section (cellText L sizes results) eps ops ft)"
      using False
      apply (simp only: formatFileTests.simps Let_def formatRows_eq if_False append_Nil sum.case
          tr MakeTable_tableRows sectionTitle_eq)
      apply (simp add: writeWithBreak_def writeBreak_def spec_section_def)
      done
    show ?thesis
      unfolding step Cons.IH using False by (auto simp: spec_report_def)
  qed
qed

lemma formatResults_eq:
  "formatResults L sizes results =
     (case uniqueSortedIDs results of
        (fts, eps, ops) \<Rightarrow>
          if ops \<noteq> [] \<and> eps \<noteq> [] \<and> (\<exists>ft\<in>set fts. lookupSize sizes ft = 0)
          then Inl (unknownSize (hd (filter (\<lambda>ft. lookupSize sizes ft = 0) fts)))
          else Inr (spec_report (cellText L sizes results) fts eps ops))"
  by (simp add: formatResults_def formatFileTests_eq split: prod.splits)
section \<open>The report: order of the keys, keys of a stored result\<close>

lemma sorted_ids:
  assumes "uniqueSortedIDs results = (fts, eps, ops)"
  shows "sorted_wrt (<) fts \<and> set fts = storeFileTestIDs results"
    "sorted_wrt (<) eps \<and> set eps = storeEndpointIDs results"
    "sorted_wrt (<) ops \<and> set ops = storeOperations results"
proof -
  have f: "finite (storeFileTestIDs results)" "finite (storeEndpointIDs results)"
    "finite (storeOperations results)"
    by (auto simp: storeFileTestIDs_def storeEndpointIDs_def storeOperations_def)
  show "sorted_wrt (<) fts \<and> set fts = storeFileTestIDs results"
    "sorted_wrt (<) eps \<and> set eps = storeEndpointIDs results"
    "sorted_wrt (<) ops \<and> set ops = storeOperations results"
    using assms f unfolding uniqueSortedIDs_eq
    by (auto simp: strict_sorted_iff)
qed

lemma lookupResult_keys:
  assumes "lookupResult results ft operation ep = Some r"
  shows "ft \<in> storeFileTestIDs results" "operation \<in> storeOperations results"
    "ep \<in> storeEndpointIDs results"
proof -
  from assms obtain ors ers where
    1: "map_of results ft = Some ors" and 2: "map_of ors operation = Some ers"
    and 3: "map_of ers ep = Some (Some r)"
    by (auto simp: lookupResult_def split: option.splits)
  have a: "(ft, ors) \<in> set results" "(operation, ers) \<in> set ors" "(ep, Some r) \<in> set ers"
    using 1 2 3 by (auto dest: map_of_SomeD)
  show "ft \<in> storeFileTestIDs results"
    using a by (force simp: storeFileTestIDs_def)
  show "operation \<in> storeOperations results"
    using a by (force simp: storeOperations_def)
  show "ep \<in> storeEndpointIDs results"
    using a by (force simp: storeEndpointIDs_def)
qed

lemma hd_filter_sorted_least:
  fixes xs :: "'a::linorder list"
  assumes "sorted_wrt (<) xs" "x \<in> set xs" "P x"
  shows "hd (filter P xs) \<in> set xs \<and> P (hd (filter P xs)) \<and>
         (\<forall>y\<in>set xs. P y \<longrightarrow> hd (filter P xs) \<le> y)"
  using assms
proof (induction xs)
  case Nil
  then show ?case by simp
next
  case (Cons a xs)
  show ?case
  proof (cases "P a")
    case True
    then show ?thesis using Cons.prems by auto
  next
    case False
    then have "x \<in> set xs" using Cons.prems by auto
    then show ?thesis using Cons False by auto
  qed
qed

section \<open>The report: the examples evaluated\<close>

lemma decimal_digits:
  "decimal 0 = ''0''" "decimal 5 = ''5''" "decimal 10 = ''10''" "decimal 16 = ''16''"
  "decimal 20 = ''20''"
  by (simp_all add: decimal.simps digitChar_def)

lemma fmtFrac_numeral:
  "fmtFrac v (numeral k) print buf =
     fmtFrac (v div 10) (pred_numeral k) (print \<or> v mod 10 \<noteq> 0)
       (if print \<or> v mod 10 \<noteq> 0 then digitChar (v mod 10) # buf else buf)"
  unfolding numeral_eq_Suc[of k] by (simp only: fmtFrac.simps Let_def)

lemma fmtFrac_5s: "fmtFrac 5000000000 9 False ''s'' = (''s'', 5)"
  by (simp add: fmtFrac_numeral)

lemma Duration_String_5s: "time_Duration_String (5 * second) = ''5s''"
  by (simp add: time_Duration_String_def second_def Let_def decimal_digits fmtFrac_5s)

lemma megabits_exact:
  "f_div exactLib (f_div exactLib (f_mul exactLib (float64 exactLib 10000000) (float64 exactLib 8))
      (float64 exactLib 1000)) (float64 exactLib 1000) = Finite 80"
  "f_div exactLib (f_div exactLib (f_mul exactLib (float64 exactLib 20000000) (float64 exactLib 8))
      (float64 exactLib 1000)) (float64 exactLib 1000) = Finite 160"
  by (simp_all add: exactLib_def xfloat_of_int_def)

lemma seconds_exact:
  "Duration_Seconds exactLib (5 * second) = Finite 5"
  "Duration_Seconds exactLib (8 * second) = Finite 8"
  by (simp_all add: exactLib_def second_def)

lemma Format_exact:
  "FormatFloat exactLib (Finite 16) CHR ''f'' 2 64 = ''16.00''"
  "FormatFloat exactLib (Finite 10) CHR ''f'' 2 64 = ''10.00''"
  "FormatFloat exactLib (Finite 20) CHR ''f'' 2 64 = ''20.00''"
  by (simp_all add: exactLib_def roundHalfEven_def Let_def padZeros_def decimal_digits)

lemma div_exact:
  "f_div exactLib (Finite 80) (Finite 5) = Finite 16"
  "f_div exactLib (Finite 80) (Finite 8) = Finite 10"
  "f_div exactLib (Finite 160) (Finite 8) = Finite 20"
  by (simp_all add: exactLib_def)

lemma cells_exact:
  "formatResultForRow exactLib Upload 10000000 (Some (okResult (5 * second))) = ''16.00 Mbps''"
  "formatResultForRow exactLib Upload 10000000 (Some (okResult (8 * second))) = ''10.00 Mbps''"
  "formatResultForRow exactLib Download 10000000 (Some (okResult (8 * second))) = ''10.00 Mbps''"
  "formatResultForRow exactLib Download 20000000 (Some (okResult (8 * second))) = ''20.00 Mbps''"
  "formatResultForRow exactLib Delete 10000000 (Some (okResult (5 * second))) = ''5s''"
  by (simp_all add: formatResultForRow_def okResult_def Upload_def Download_def Delete_def Let_def
      megabits_exact seconds_exact div_exact Format_exact)
     (simp add: exactLib_def Duration_String_5s)

lemma cells_plain:
  "formatResultForRow L operation n None = ''-''"
  "msg \<noteq> [] \<Longrightarrow> formatResultForRow L operation n (Some (errResult d msg)) = ''ERR''"
  by (simp_all add: formatResultForRow_def errResult_def)

lemma sectionTitle_ft:
  "spec_sectionTitle ''ft1'' = ''*********\<newline>File: ft1\<newline>*********\<newline>\<newline>''"
  "spec_sectionTitle ''ft2'' = ''*********\<newline>File: ft2\<newline>*********\<newline>\<newline>''"
  by (simp_all add: spec_sectionTitle_def eval_nat_numeral)

lemma store_test1:
  "submitAll testReports1 =
     [(''ft1'', [(Upload, [(''end1'', Some (okResult (5 * second))),
                           (''end2'', Some (okResult (8 * second)))]),
                 (Download, [(''end2'', Some (okResult (8 * second)))])]),
      (''ft2'', [(Download, [(''end2'', Some (okResult (8 * second)))])])]"
  by (simp add: submitAll_def testReports1_def storeResult_def Upload_def Download_def)

lemma ids_test1:
  "uniqueSortedIDs (submitAll testReports1) =
     ([''ft1'', ''ft2''], [''end1'', ''end2''], [Upload, Download])"
  unfolding store_test1
  by (simp add: uniqueSortedIDs_def appendUnseen_def Upload_def Download_def)

lemma sizes_test1:
  "lookupSize testSizes1 ''ft1'' = 10000000" "lookupSize testSizes1 ''ft2'' = 20000000"
  by (simp_all add: lookupSize_def testSizes1_def)

lemma rows_test1:
  "spec_tableRows (cellText exactLib testSizes1 (submitAll testReports1)) [''end1'', ''end2'']
      [Upload, Download] ''ft1'' =
     [[''Operation'', ''end1'', ''end2''],
      [''Upload'', ''16.00 Mbps'', ''10.00 Mbps''],
      [''Download'', ''-'', ''10.00 Mbps'']]"
  "spec_tableRows (cellText exactLib testSizes1 (submitAll testReports1)) [''end1'', ''end2'']
      [Upload, Download] ''ft2'' =
     [[''Operation'', ''end1'', ''end2''],
      [''Upload'', ''-'', ''-''],
      [''Download'', ''-'', ''20.00 Mbps'']]"
  unfolding store_test1
  by (simp_all add: spec_tableRows_def cellText_def sizes_test1 lookupResult_def cells_exact
      cells_plain)
     (simp_all add: Operation_String_def Upload_def Download_def Delete_def)

lemma tables_test1:
  "spec_tableText [[''Operation'', ''end1'', ''end2''],
      [''Upload'', ''16.00 Mbps'', ''10.00 Mbps''],
      [''Download'', ''-'', ''10.00 Mbps'']] ''-'' =
     ''Operation     end1           end2\<newline>'' @
     ''---------------------------------------\<newline>'' @
     ''Upload        16.00 Mbps     10.00 Mbps\<newline>'' @
     ''Download      -              10.00 Mbps\<newline>''"
  "spec_tableText [[''Operation'', ''end1'', ''end2''],
      [''Upload'', ''-'', ''-''],
      [''Download'', ''-'', ''20.00 Mbps'']] ''-'' =
     ''Operation     end1     end2\<newline>'' @
     ''---------------------------------\<newline>'' @
     ''Upload        -        -\<newline>'' @
     ''Download      -        20.00 Mbps\<newline>''"
  by code_simp+

lemma report_test1:
  "formatResults exactLib testSizes1 (submitAll testReports1) = Inr testExpected1"
  unfolding formatResults_eq ids_test1
  by (simp add: sizes_test1 spec_report_def spec_section_def rows_test1 tables_test1
      sectionTitle_ft testExpected1_def)
section \<open>The report: the store after a sequence of submissions\<close>

lemma map_of_SomeD': "Some v = map_of al k \<Longrightarrow> (k, v) \<in> set al"
  by (metis map_of_SomeD)

lemma UN_update:
  assumes "\<And>old. map_of al k = Some old \<Longrightarrow> K old \<subseteq> K v"
  shows "(\<Union>(k', v')\<in>set (AList.update k v al). K v') = K v \<union> (\<Union>(k', v')\<in>set al. K v')"
  using assms by (induction al) (auto split: if_splits)

lemma storeResult_fileTestIDs:
  "storeFileTestIDs (storeResult results operation ft ep r) = insert ft (storeFileTestIDs results)"
  by (simp add: storeFileTestIDs_def storeResult_def Let_def dom_update)

lemma map_of_keys: "map_of al k = Some v \<Longrightarrow> k \<in> fst ` set al"
  by (metis domI dom_map_of_conv_image_fst)

lemma storeResult_operations:
  "storeOperations (storeResult results operation ft ep r) = insert operation (storeOperations results)"
proof -
  let ?ors = "case map_of results ft of None \<Rightarrow> [] | Some m \<Rightarrow> m"
  let ?ers = "case map_of ?ors operation of None \<Rightarrow> [] | Some m \<Rightarrow> m"
  let ?new = "AList.update operation (AList.update ep r ?ers) ?ors"
  have "(\<Union>(k', v')\<in>set (AList.update ft ?new results). fst ` set v') =
        fst ` set ?new \<union> (\<Union>(k', v')\<in>set results. fst ` set v')"
    by (rule UN_update) (auto simp: dom_update)
  moreover have "fst ` set ?new \<union> (\<Union>(k', v')\<in>set results. fst ` set v') =
      insert operation (\<Union>(k', v')\<in>set results. fst ` set v')"
    by (auto simp: dom_update split: option.splits dest!: map_of_SomeD map_of_SomeD')
  ultimately show ?thesis
    by (simp add: storeOperations_def storeResult_def Let_def)
qed

lemma storeResult_endpointIDs:
  "storeEndpointIDs (storeResult results operation ft ep r) = insert ep (storeEndpointIDs results)"
proof -
  let ?K = "\<lambda>ors. (\<Union>(operation, ers)\<in>set ors. fst ` set ers)"
  let ?ors = "case map_of results ft of None \<Rightarrow> [] | Some m \<Rightarrow> m"
  let ?ers = "case map_of ?ors operation of None \<Rightarrow> [] | Some m \<Rightarrow> m"
  let ?new = "AList.update operation (AList.update ep r ?ers) ?ors"
  have inner: "?K ?new = insert ep (?K ?ors)"
  proof -
    have "?K ?new = fst ` set (AList.update ep r ?ers) \<union> ?K ?ors"
      by (rule UN_update) (auto simp: dom_update)
    also have "\<dots> = insert ep (?K ?ors)"
      by (auto simp: dom_update split: option.splits dest!: map_of_SomeD map_of_SomeD')
    finally show ?thesis .
  qed
  have "(\<Union>(k', v')\<in>set (AList.update ft ?new results). ?K v') =
        ?K ?new \<union> (\<Union>(k', v')\<in>set results. ?K v')"
  proof (rule UN_update)
    fix old
    assume "map_of results ft = Some old"
    then have "?ors = old" by simp
    then have "?K old = ?K ?ors" by simp
    then show "?K old \<subseteq> ?K ?new" unfolding inner by blast
  qed
  moreover have "?K ?ors \<subseteq> (\<Union>(k', v')\<in>set results. ?K v')"
    by (auto split: option.splits dest!: map_of_SomeD map_of_SomeD')
  ultimately have "(\<Union>(k', v')\<in>set (AList.update ft ?new results). ?K v') =
      insert ep (\<Union>(k', v')\<in>set results. ?K v')"
    unfolding inner by auto
  then show ?thesis
    by (simp add: storeEndpointIDs_def storeResult_def Let_def)
qed

lemma lookupResult_storeResult:
  "lookupResult (storeResult results operation ft ep r) ft' operation' ep' =
     (if ft' = ft \<and> operation' = operation \<and> ep' = ep then r
      else lookupResult results ft' operation' ep')"
  by (auto simp: lookupResult_def storeResult_def Let_def update_conv' split: option.splits)

lemma submitAll_snoc:
  "submitAll (reports @ [(operation, ft, ep, r)]) = storeResult (submitAll reports) operation ft ep r"
  by (simp add: submitAll_def)

lemma submitAll_keys:
  "storeFileTestIDs (submitAll reports) = (\<lambda>(operation, ft, ep, r). ft) ` set reports"
  "storeOperations (submitAll reports) = (\<lambda>(operation, ft, ep, r). operation) ` set reports"
  "storeEndpointIDs (submitAll reports) = (\<lambda>(operation, ft, ep, r). ep) ` set reports"
proof (induction reports rule: rev_induct)
  case Nil
  {
    case 1 show ?case by (simp add: submitAll_def storeFileTestIDs_def)
  next
    case 2 show ?case by (simp add: submitAll_def storeOperations_def)
  next
    case 3 show ?case by (simp add: submitAll_def storeEndpointIDs_def)
  }
next
  case (snoc x xs)
  obtain operation ft ep r where x: "x = (operation, ft, ep, r)" by (cases x) auto
  {
    case 1 show ?case
      using snoc(1) by (simp add: x submitAll_snoc storeResult_fileTestIDs)
  next
    case 2 show ?case
      using snoc(2) by (simp add: x submitAll_snoc storeResult_operations)
  next
    case 3 show ?case
      using snoc(3) by (simp add: x submitAll_snoc storeResult_endpointIDs)
  }
qed

lemma lookupResult_submitAll:
  "lookupResult (submitAll reports) ft operation ep =
     (case map_of (rev (map (\<lambda>x. (reportKey x, snd (snd (snd x)))) reports)) (ft, operation, ep) of
        None \<Rightarrow> None | Some r \<Rightarrow> r)"
proof (induction reports rule: rev_induct)
  case Nil
  then show ?case by (simp add: submitAll_def lookupResult_def)
next
  case (snoc x xs)
  obtain operation' ft' ep' r' where x: "x = (operation', ft', ep', r')" by (cases x) auto
  show ?case
    using snoc by (auto simp: x submitAll_snoc lookupResult_storeResult reportKey_def)
qed

lemma lookupResult_submitAll_perm:
  assumes "mset reports' = mset reports" "distinct (map reportKey reports)"
  shows "lookupResult (submitAll reports') = lookupResult (submitAll reports)"
proof -
  let ?kv = "\<lambda>x::Operation \<times> ID \<times> ID \<times> Result option. (reportKey x, snd (snd (snd x)))"
  have d: "distinct (map fst (map ?kv reports))"
    using assms(2) by (simp add: comp_def)
  have "mset (map reportKey reports') = mset (map reportKey reports)"
    using assms(1) by simp
  then have "distinct (map reportKey reports')"
    using assms(2) by (metis mset_eq_imp_distinct_iff)
  then have d': "distinct (map fst (map ?kv reports'))"
    by (simp add: comp_def)
  have s: "set (map ?kv reports') = set (map ?kv reports)"
    using mset_eq_setD[OF assms(1)] by simp
  have "distinct (map fst (rev (map ?kv reports')))" "distinct (map fst (rev (map ?kv reports)))"
    using d d' by (simp_all only: rev_map[symmetric] distinct_rev)
  moreover have "set (rev (map ?kv reports')) = set (rev (map ?kv reports))"
    using s by simp
  ultimately have "map_of (rev (map ?kv reports')) = map_of (rev (map ?kv reports))"
    by (simp only: map_of_inject_set)
  then show ?thesis
    by (intro ext) (simp add: lookupResult_submitAll)
qed

lemma formatResults_cong:
  assumes "storeFileTestIDs results' = storeFileTestIDs results"
    "storeOperations results' = storeOperations results"
    "storeEndpointIDs results' = storeEndpointIDs results"
    "lookupResult results' = lookupResult results"
  shows "formatResults L sizes results' = formatResults L sizes results"
proof -
  have c: "cellText L sizes results' = cellText L sizes results"
    using assms(4) by (intro ext) (simp add: cellText_def)
  show ?thesis
    unfolding formatResults_eq uniqueSortedIDs_eq assms(1-3) c ..
qed

lemma formatResults_submitAll_perm:
  assumes "mset reports' = mset reports" "distinct (map reportKey reports)"
  shows "formatResults L sizes (submitAll reports') = formatResults L sizes (submitAll reports)"
proof -
  have "set reports' = set reports" using assms(1) by (rule mset_eq_setD)
  then show ?thesis
    by (intro formatResults_cong lookupResult_submitAll_perm[OF assms])
       (simp_all add: submitAll_keys)
qed
section \<open>The report: further examples evaluated\<close>

lemma store_test2:
  "submitAll testReports2 =
     [(''ft1'', [(Upload, [(''end1'',
        Some \<lparr>StartTime = 0, Duration = 5 * second, Success = True, Error = ''Here is an error''\<rparr>)])])]"
  by (simp add: submitAll_def testReports2_def storeResult_def)

lemma ids_test2:
  "uniqueSortedIDs (submitAll testReports2) = ([''ft1''], [''end1''], [Upload])"
  unfolding store_test2 by (simp add: uniqueSortedIDs_def appendUnseen_def)

lemma rows_test2:
  "lookupSize sizes ''ft1'' = lookupSize testSizes2 ''ft1'' \<Longrightarrow>
   spec_tableRows (cellText exactLib sizes (submitAll testReports2)) [''end1''] [Upload] ''ft1'' =
     [[''Operation'', ''end1''], [''Upload'', ''ERR'']]"
  unfolding store_test2
  by (simp add: spec_tableRows_def cellText_def lookupResult_def formatResultForRow_def
      Operation_String_def)

lemma table_test2:
  "spec_tableText [[''Operation'', ''end1''], [''Upload'', ''ERR'']] ''-'' =
     ''Operation     end1\<newline>'' @
     ''------------------\<newline>'' @
     ''Upload        ERR\<newline>''"
  by code_simp

lemma report_test2:
  assumes "lookupSize sizes ''ft1'' = 10000000"
  shows "formatResults exactLib sizes (submitAll testReports2) = Inr testExpected2"
proof -
  have "lookupSize sizes ''ft1'' = lookupSize testSizes2 ''ft1''"
    using assms by (simp add: lookupSize_def testSizes2_def)
  then show ?thesis
    unfolding formatResults_eq ids_test2
    by (simp add: assms spec_report_def spec_section_def rows_test2 table_test2 sectionTitle_ft
      testExpected2_def)
qed

lemma store_mixed:
  "submitAll mixedReports =
     [(''ft1'', [(Delete, [(''end1'', Some (okResult (5 * second)))]),
                 (Upload, [(''end2'', Some (errResult (3 * second) ''boom'')),
                           (''end1'', Some (okResult (5 * second)))])])]"
  by (simp add: submitAll_def mixedReports_def storeResult_def Upload_def Delete_def)

lemma ids_mixed:
  "uniqueSortedIDs (submitAll mixedReports) = ([''ft1''], [''end1'', ''end2''], [Upload, Delete])"
  unfolding store_mixed
  by (simp add: uniqueSortedIDs_def appendUnseen_def Upload_def Delete_def)

lemma rows_mixed:
  "spec_tableRows (cellText exactLib testSizes2 (submitAll mixedReports)) [''end1'', ''end2'']
      [Upload, Delete] ''ft1'' =
     [[''Operation'', ''end1'', ''end2''],
      [''Upload'', ''16.00 Mbps'', ''ERR''],
      [''Delete'', ''5s'', ''-'']]"
  unfolding store_mixed
  by (simp add: spec_tableRows_def cellText_def lookupSize_def testSizes2_def lookupResult_def
      cells_exact cells_plain)
     (simp add: Operation_String_def Upload_def Download_def Delete_def)

lemma table_mixed:
  "spec_tableText [[''Operation'', ''end1'', ''end2''],
      [''Upload'', ''16.00 Mbps'', ''ERR''],
      [''Delete'', ''5s'', ''-'']] ''-'' =
     ''Operation     end1           end2\<newline>'' @
     ''---------------------------------\<newline>'' @
     ''Upload        16.00 Mbps     ERR\<newline>'' @
     ''Delete        5s             -\<newline>''"
  by code_simp

lemma sizes_test2: "lookupSize testSizes2 ''ft1'' = 10000000"
  by (simp add: lookupSize_def testSizes2_def)

lemma report_mixed:
  "formatResults exactLib testSizes2 (submitAll mixedReports) = Inr mixedExpected"
  unfolding formatResults_eq ids_mixed
  by (simp add: sizes_test2 spec_report_def spec_section_def rows_mixed
      table_mixed sectionTitle_ft mixedExpected_def)

lemma store_unsized:
  "submitAll unsizedReports =
     [(''b'', [(Upload, [(''end1'', Some (okResult (5 * second)))])]),
      (''a'', [(Upload, [(''end1'', Some (okResult (5 * second)))])])]"
  by (simp add: submitAll_def unsizedReports_def storeResult_def)

lemma ids_unsized:
  "uniqueSortedIDs (submitAll unsizedReports) = ([''a'', ''b''], [''end1''], [Upload])"
  unfolding store_unsized by (simp add: uniqueSortedIDs_def appendUnseen_def)

lemma report_unsized:
  "formatResults L Map.empty (submitAll unsizedReports) = Inl (Err ''Unknown fileTestSize for a'')"
  unfolding formatResults_eq ids_unsized
  by (auto simp: lookupSize_def unknownSize_def)
section \<open>The runner: object names, goroutines\<close>

lemma less_10_cases: "a < 10 \<Longrightarrow> a \<in> {0, 1, 2, 3, 4, 5, 6, 7, 8, 9::nat}"
  by auto

lemma digitChar_inj: "a < 10 \<Longrightarrow> b < 10 \<Longrightarrow> digitChar a = digitChar b \<Longrightarrow> a = b"
  by (drule less_10_cases, drule less_10_cases) (auto simp: digitChar_def)

lemma digitChar_not_minus: "a < 10 \<Longrightarrow> digitChar a \<noteq> CHR ''-''"
  by (drule less_10_cases) (auto simp: digitChar_def)

lemma decimal_nonempty: "decimal n \<noteq> []"
  by (subst decimal.simps) simp

lemma decimal_length_ge2: "10 \<le> n \<Longrightarrow> 2 \<le> length (decimal n)"
proof -
  assume "10 \<le> n"
  then have "decimal n = decimal (n div 10) @ [digitChar (n mod 10)]"
    by (subst decimal.simps) simp
  moreover have "1 \<le> length (decimal (n div 10))"
    using decimal_nonempty[of "n div 10"] by (cases "decimal (n div 10)") auto
  ultimately show ?thesis by simp
qed

lemma decimal_inj: "decimal n = decimal m \<Longrightarrow> n = m"
proof (induction n arbitrary: m rule: decimal.induct)
  case (1 n)
  show ?case
  proof (cases "n < 10")
    case True
    then have n: "decimal n = [digitChar n]" by (subst decimal.simps) simp
    have "m < 10"
    proof (rule ccontr)
      assume "\<not> m < 10"
      then have "2 \<le> length (decimal m)" by (simp add: decimal_length_ge2)
      moreover have "length (decimal m) = 1" using "1.prems" n by (metis length_Cons list.size(3) One_nat_def)
      ultimately show False by simp
    qed
    then have "decimal m = [digitChar m]" by (subst decimal.simps) simp
    then have "digitChar n = digitChar m" using "1.prems" n by simp
    then show ?thesis using True \<open>m < 10\<close> by (rule digitChar_inj[rotated 2])
  next
    case False
    then have n: "decimal n = decimal (n div 10) @ [digitChar (n mod 10)]"
      by (subst decimal.simps) simp
    have "\<not> m < 10"
    proof
      assume "m < 10"
      then have "decimal m = [digitChar m]" by (subst decimal.simps) simp
      then have "length (decimal n) = 1" using "1.prems" by simp
      moreover have "2 \<le> length (decimal n)" using False by (simp add: decimal_length_ge2)
      ultimately show False by simp
    qed
    then have m: "decimal m = decimal (m div 10) @ [digitChar (m mod 10)]"
      by (subst decimal.simps) simp
    from "1.prems" n m have eq: "decimal (n div 10) = decimal (m div 10)"
      "digitChar (n mod 10) = digitChar (m mod 10)" by auto
    have "n div 10 = m div 10" using "1.IH"[OF False eq(1)] .
    moreover have "n mod 10 = m mod 10"
      by (rule digitChar_inj[OF _ _ eq(2)]) simp_all
    ultimately show ?thesis by (metis div_mult_mod_eq)
  qed
qed

lemma decimal_hd_not_minus: "hd (decimal n) \<noteq> CHR ''-''"
proof (induction n rule: decimal.induct)
  case (1 n)
  show ?case
  proof (cases "n < 10")
    case True
    then have "decimal n = [digitChar n]" by (subst decimal.simps) simp
    then show ?thesis using True by (simp add: digitChar_not_minus)
  next
    case False
    then have "decimal n = decimal (n div 10) @ [digitChar (n mod 10)]"
      by (subst decimal.simps) simp
    then show ?thesis using "1.IH"[OF False] decimal_nonempty[of "n div 10"] by simp
  qed
qed

lemma strconv_Itoa_inj: "strconv_Itoa i = strconv_Itoa j \<Longrightarrow> i = j"
proof -
  assume eq: "strconv_Itoa i = strconv_Itoa j"
  have neg: "hd (strconv_Itoa k) = CHR ''-'' \<longleftrightarrow> k < 0" for k
    using decimal_hd_not_minus[of "nat k"] by (simp add: strconv_Itoa_def)
  have same: "i < 0 \<longleftrightarrow> j < 0" using eq neg by metis
  show ?thesis
  proof (cases "i < 0")
    case True
    then have "decimal (nat (- i)) = decimal (nat (- j))"
      using eq same by (simp add: strconv_Itoa_def)
    then have "nat (- i) = nat (- j)" by (rule decimal_inj)
    then show ?thesis using True same by simp
  next
    case False
    then have "decimal (nat i) = decimal (nat j)"
      using eq same by (simp add: strconv_Itoa_def)
    then have "nat i = nat j" by (rule decimal_inj)
    then show ?thesis using False same by simp
  qed
qed

lemma pathName_inj: "pathName fileTestID i = pathName fileTestID j \<Longrightarrow> i = j"
  by (simp add: pathName_def strconv_Itoa_inj)

lemma pathName_collision: "pathName ''a'' 11 = pathName ''a1'' 1"
  by (simp add: pathName_def strconv_Itoa_def decimal.simps digitChar_def)

lemma goroutineOrder_perm: "mset (goroutineOrder n xs) = mset [0..<n]"
proof -
  have d: "distinct (goroutineOrder n xs)"
    by (auto simp: goroutineOrder_def)
  have s: "set (goroutineOrder n xs) = set [0..<n]"
    by (auto simp: goroutineOrder_def)
  show ?thesis
    using d s by (metis distinct_upt set_eq_iff_mset_eq_distinct)
qed

lemma goroutineOrder_any:
  "mset order = mset [0..<n] \<Longrightarrow> goroutineOrder n order = order"
proof -
  assume m: "mset order = mset [0..<n]"
  then have s: "set order = {0..<n}" by (metis mset_eq_setD set_upt)
  have d: "distinct order" using m by (metis distinct_upt mset_eq_imp_distinct_iff)
  have "filter (\<lambda>i. i < n) order = order" using s by (auto simp: filter_id_conv)
  moreover have "filter (\<lambda>i. i \<notin> set order) [0..<n] = []" using s by (auto simp: filter_empty_conv)
  ultimately show ?thesis using d by (simp add: goroutineOrder_def)
qed

lemma runWorkers_trace:
  assumes "\<And>i s. trace (snd (f i s)) = trace s @ [ev i]"
  shows "trace (snd (runWorkers f order err s)) = trace s @ map ev order"
proof (induction order arbitrary: err s)
  case Nil
  then show ?case by simp
next
  case (Cons i rest)
  obtain e s' where f: "f i s = (e, s')" by (cases "f i s")
  have "trace s' = trace s @ [ev i]" using assms[of i s] f by simp
  then show ?case using Cons f by simp
qed

lemma runWorkers_error:
  assumes "\<And>i s. P (fst (f i s))" and "P err"
  shows "P (fst (runWorkers f order err s))"
  using assms(2)
proof (induction order arbitrary: err s)
  case Nil
  then show ?case by simp
next
  case (Cons i rest)
  obtain e s' where f: "f i s = (e, s')" by (cases "f i s")
  have "P e" using assms(1)[of i s] f by simp
  then have "P (case err of None \<Rightarrow> e | Some first \<Rightarrow> Some first)"
    using Cons.prems by (cases err) auto
  then show ?case using Cons.IH f by simp
qed
section \<open>The runner: the calls of an operation, of a check and of a run\<close>

lemma submissions_append: "submissions (t1 @ t2) = submissions t1 @ submissions t2"
  by (induction t1 rule: submissions.induct) auto

lemma finishResult_fields:
  "Success (finishResult R (newResultNow R s0) err s) = (err = None)"
  "Error (finishResult R (newResultNow R s0) err s) = (case err of None \<Rightarrow> '''' | Some msg \<Rightarrow> msg)"
  by (auto simp: finishResult_def newResultNow_def Let_def split: option.splits)

lemma finishResult_invariant:
  "(named \<longrightarrow> err \<noteq> Some '''') \<Longrightarrow>
   resultInvariant named (finishResult R (newResultNow R s0) err s)"
  by (auto simp: resultInvariant_def finishResult_fields split: option.splits)

lemma runOk_single:
  assumes "submissions t0 = []" "resultInvariant named r"
  shows "runOk named [place] (t0 @ [Reported (fst place) (fst (snd place)) (snd (snd place)) r x])
           (map_option Err x)"
  using assms
  by (cases x) (auto simp: runOk_def spec_submitted_def submissions_append)

lemma callReport_events:
  assumes "callReport c ctx operation ft ep result s = (err, s')"
  shows "\<exists>x. trace s' = trace s @ [Reported operation ft ep result x] \<and> err = map_option Err x"
  using assms by (auto simp: callReport_def split: prod.splits)

lemma runParallel_trace:
  assumes "\<And>i s. trace (snd (f i s)) = trace s @ [ev i]"
    and "\<And>i. submissions [ev i] = []"
  shows "\<exists>t. trace (snd (runParallel R n f s)) = trace s @ t \<and> submissions t = []"
proof -
  let ?order = "goroutineOrder (nat n) (schedule R (world s))"
  have "trace (snd (runParallel R n f s)) = trace s @ map ev ?order"
    unfolding runParallel_def by (rule runWorkers_trace) (rule assms(1))
  moreover have "submissions (map ev order) = []" for order
  proof (induction order)
    case Nil
    then show ?case by simp
  next
    case (Cons i rest)
    have "submissions (map ev (i # rest)) = submissions ([ev i] @ map ev rest)" by simp
    also have "\<dots> = submissions [ev i] @ submissions (map ev rest)"
      by (rule submissions_append)
    finally show ?case using Cons assms(2) by simp
  qed
  ultimately show ?thesis by blast
qed


lemma uploadWorker_trace:
  "trace (snd (uploadWorker R ctx ft fileTest ep i s)) =
     trace s @ [ClientUpload (ID ep) (pathName ft (int i)) (fileReader R fileTest (int i))]"
  by (simp add: uploadWorker_def callUpload_def Let_def split: prod.splits)

lemma delWorker_trace:
  "trace (snd (delWorker ctx ft ep i s)) = trace s @ [ClientDelete (ID ep) (pathName ft (int i))]"
  by (simp add: delWorker_def callDelete_def split: prod.splits)

lemma downloadWorker_trace:
  "trace (snd (downloadWorker R ctx ft ep hs i s)) =
     trace s @ [ClientDownload (ID ep) (pathName ft (int i))]"
  by (auto simp: downloadWorker_def callDownload_def Let_def split: prod.splits sum.splits option.splits)

lemma uploadWorker_named:
  "clientNamesErrors (Client ep) \<Longrightarrow> fst (uploadWorker R ctx ft fileTest ep i s) \<noteq> Some ''''"
  by (auto simp: uploadWorker_def callUpload_def Let_def clientNamesErrors_def split: prod.splits
      dest: fst_eqD) (metis fst_conv)

lemma delWorker_named:
  "clientNamesErrors (Client ep) \<Longrightarrow> fst (delWorker ctx ft ep i s) \<noteq> Some ''''"
  by (auto simp: delWorker_def callDelete_def clientNamesErrors_def split: prod.splits)
     (metis fst_conv)

lemma mismatchMessage_nonempty: "mismatchMessage R ft i expected digest \<noteq> ''''"
  by (simp add: mismatchMessage_def)

lemma downloadWorker_named:
  assumes "clientNamesErrors (Client ep)"
  shows "fst (downloadWorker R ctx ft ep hs i s) \<noteq> Some ''''"
proof -
  obtain r w where d: "Client_Download (Client ep) ctx (pathName ft (int i)) (world s) = (r, w)"
    by (cases "Client_Download (Client ep) ctx (pathName ft (int i)) (world s)")
  have "case r of Inl err \<Rightarrow> err \<noteq> '''' | Inr strm \<Rightarrow> stream_readError strm \<noteq> Some ''''"
    using assms d unfolding clientNamesErrors_def by (metis fst_conv)
  then show ?thesis
    using d
    by (auto simp: downloadWorker_def callDownload_def Let_def mismatchMessage_nonempty
        split: sum.splits option.splits)
qed

lemma operation_run:
  assumes par: "runParallel R n f s = (oerr, s1)"
    and tr: "\<And>i s. trace (snd (f i s)) = trace s @ [ev i]"
    and ev: "\<And>i. submissions [ev i] = []"
    and named: "named \<Longrightarrow> (\<And>i s. fst (f i s) \<noteq> Some '''')"
    and rep: "callReport c ctx operation ft ep (finishResult R (newResultNow R s) oerr s1) s1 = (err, s')"
  shows "\<exists>t. trace s' = trace s @ t \<and> runOk named [(operation, ft, ep)] t err"
proof -
  obtain t0 where t0: "trace s1 = trace s @ t0" "submissions t0 = []"
    using runParallel_trace[of f ev R n s, OF tr ev] par by auto
  have "oerr \<noteq> Some ''''" if named
  proof -
    have "fst (runWorkers f (goroutineOrder (nat n) (schedule R (world s))) None s) \<noteq> Some ''''"
      by (rule runWorkers_error[where P = "\<lambda>e. e \<noteq> Some ''''"]) (use named[OF that] in auto)
    then show ?thesis using par by (simp add: runParallel_def)
  qed
  then have inv: "resultInvariant named (finishResult R (newResultNow R s) oerr s1)"
    by (intro finishResult_invariant) blast
  obtain x where x: "trace s' = trace s1 @ [Reported operation ft ep (finishResult R (newResultNow R s) oerr s1) x]"
    "err = map_option Err x"
    using callReport_events[OF rep] by blast
  have "runOk named [(operation, ft, ep)]
     (t0 @ [Reported (fst (operation, ft, ep)) (fst (snd (operation, ft, ep))) (snd (snd (operation, ft, ep)))
        (finishResult R (newResultNow R s) oerr s1) x]) (map_option Err x)"
    by (rule runOk_single[OF t0(2) inv])
  then show ?thesis using x t0 by simp
qed

lemma Checker_Upload_run:
  assumes "Checker_Upload c R ctx ft fileTest ep s = (err, s')"
  shows "\<exists>t. trace s' = trace s @ t \<and> runOk (clientNamesErrors (Client ep)) [(Upload, ft, ID ep)] t err"
proof -
  obtain oerr s1 where u: "upload R ctx ft fileTest ep s = (oerr, s1)"
    by (cases "upload R ctx ft fileTest ep s")
  show ?thesis
  proof (rule operation_run[where ev = "\<lambda>i. ClientUpload (ID ep) (pathName ft (int i)) (fileReader R fileTest (int i))"])
    show "runParallel R (sint (NumParallel fileTest))
        (uploadWorker R (WithTimeout ctx (Timeout fileTest)) ft fileTest ep) s = (oerr, s1)"
      using u by (simp add: upload_def)
    show "callReport c ctx Upload ft (ID ep) (finishResult R (newResultNow R s) oerr s1) s1 = (err, s')"
      using assms u by (simp add: Checker_Upload_def)
  qed (simp_all add: uploadWorker_trace uploadWorker_named)
qed

lemma Checker_Delete_run:
  assumes "Checker_Delete c R ctx ft fileTest ep s = (err, s')"
  shows "\<exists>t. trace s' = trace s @ t \<and> runOk (clientNamesErrors (Client ep)) [(Delete, ft, ID ep)] t err"
proof -
  obtain oerr s1 where u: "del R ctx ft fileTest ep s = (oerr, s1)"
    by (cases "del R ctx ft fileTest ep s")
  show ?thesis
  proof (rule operation_run[where ev = "\<lambda>i. ClientDelete (ID ep) (pathName ft (int i))"])
    show "runParallel R (sint (NumParallel fileTest))
        (delWorker (WithTimeout ctx (Timeout fileTest)) ft ep) s = (oerr, s1)"
      using u by (simp add: del_def)
    show "callReport c ctx Delete ft (ID ep) (finishResult R (newResultNow R s) oerr s1) s1 = (err, s')"
      using assms u by (simp add: Checker_Delete_def)
  qed (simp_all add: delWorker_trace delWorker_named)
qed

lemma expectedHashesLoop_eq:
  "expectedHashesLoop R fileTest is acc =
     Inr (acc @ map (\<lambda>i. sha256_Sum R (fileReader R fileTest (int i))) is)"
  by (induction "is" arbitrary: acc) (simp_all add: io_Copy_hash_def)

lemma Checker_Download_run:
  assumes "Checker_Download c R ctx ft fileTest ep s = (err, s')"
    and "0 \<le> sint (NumParallel fileTest)"
  shows "\<exists>t. trace s' = trace s @ t \<and> runOk (clientNamesErrors (Client ep)) [(Download, ft, ID ep)] t err"
proof -
  let ?hs = "map (\<lambda>i. sha256_Sum R (fileReader R fileTest (int i))) [0..<nat (sint (NumParallel fileTest))]"
  obtain oerr s1 where u: "download R ctx ft fileTest ep ?hs s = (oerr, s1)"
    by (cases "download R ctx ft fileTest ep ?hs s")
  show ?thesis
  proof (rule operation_run[where ev = "\<lambda>i. ClientDownload (ID ep) (pathName ft (int i))"])
    show "runParallel R (sint (NumParallel fileTest))
        (downloadWorker R (WithTimeout ctx (Timeout fileTest)) ft ep ?hs) s = (oerr, s1)"
      using u by (simp add: download_def)
    show "callReport c ctx Download ft (ID ep) (finishResult R (newResultNow R s) oerr s1) s1 = (err, s')"
      using assms u by (simp add: Checker_Download_def expectedHashesLoop_eq)
  qed (simp_all add: downloadWorker_trace downloadWorker_named)
qed


lemma runOk_nil: "runOk named [] [] None"
  by (simp add: runOk_def spec_submitted_def)

lemma runOk_mono: "runOk named ks t err \<Longrightarrow> (named' \<Longrightarrow> named) \<Longrightarrow> runOk named' ks t err"
  by (auto simp: runOk_def resultInvariant_def list_all_iff)

lemma runOk_abort: "runOk named ks1 t1 (Some e) \<Longrightarrow> runOk named (ks1 @ ks2) t1 (Some e)"
  by (auto simp: runOk_def spec_submitted_def)

lemma runOk_seq:
  assumes "runOk named ks1 t1 None" "runOk named ks2 t2 err"
  shows "runOk named (ks1 @ ks2) (t1 @ t2) err"
proof -
  let ?S1 = "submissions t1" and ?S2 = "submissions t2"
  let ?acc = "\<lambda>(place :: Operation \<times> ID \<times> ID, result :: Result, response :: string option). response = None"
  have 1: "map fst ?S1 = ks1" "list_all ?acc ?S1"
    "list_all (\<lambda>(place, result, response). resultInvariant named result) ?S1"
    using assms(1) by (auto simp: runOk_def spec_submitted_def)
  have 2: "prefix (map fst ?S2) ks2" "list_all ?acc (butlast ?S2)"
    "list_all (\<lambda>(place, result, response). resultInvariant named result) ?S2"
    using assms(2) by (auto simp: runOk_def spec_submitted_def)
  have b: "list_all ?acc (butlast (?S1 @ ?S2))"
    using 1(2) 2(2) by (auto simp: butlast_append list_all_iff dest: in_set_butlastD)
  have p: "prefix (map fst (?S1 @ ?S2)) (ks1 @ ks2)"
    using 1(1) 2(1) by simp
  have c: "case err of
           None \<Rightarrow> map fst (?S1 @ ?S2) = ks1 @ ks2 \<and> list_all ?acc (?S1 @ ?S2)
         | Some e \<Rightarrow> ?S1 @ ?S2 \<noteq> [] \<and> map_option Err (snd (snd (last (?S1 @ ?S2)))) = Some e"
    using assms(2) 1 by (auto simp: runOk_def spec_submitted_def split: option.splits)
  show ?thesis
    unfolding runOk_def spec_submitted_def submissions_append
    using b p c 1(3) 2(3) by simp
qed

lemma RunCheck_run:
  assumes "RunCheck c R ctx ft fileTest ep s = (err, s')"
  shows "\<exists>t. trace s' = trace s @ t \<and> runOk (clientNamesErrors (Client ep)) (checksOf ft (ID ep)) t err"
proof -
  define fileTest1 where "fileTest1 = (if sint (Timeout fileTest) \<le> 0 then fileTest\<lparr>Timeout := timeout c\<rparr>
                       else fileTest)"
  define fileTest2 where "fileTest2 = (if sint (Seed fileTest1) \<le> 0
                       then fileTest1\<lparr>Seed := word_of_int (time_Now R (world s))\<rparr>
                       else fileTest1)"
  define fileTest3 where "fileTest3 = (if sint (NumParallel fileTest2) \<le> 0 then fileTest2\<lparr>NumParallel := 1\<rparr>
                       else fileTest2)"
  have np: "0 \<le> sint (NumParallel fileTest3)"
    by (simp add: fileTest3_def)
  let ?N = "clientNamesErrors (Client ep)"
  obtain e1 s1 where u: "Checker_Upload c R ctx ft fileTest3 ep s = (e1, s1)"
    by (cases "Checker_Upload c R ctx ft fileTest3 ep s")
  obtain t1 where t1: "trace s1 = trace s @ t1" "runOk ?N [(Upload, ft, ID ep)] t1 e1"
    using Checker_Upload_run[OF u] by blast
  have unfold: "RunCheck c R ctx ft fileTest ep s =
      (case Checker_Upload c R ctx ft fileTest3 ep s of
           (Some err, s1) \<Rightarrow> (Some err, s1)
         | (None, s1) \<Rightarrow>
             (case Checker_Download c R ctx ft fileTest3 ep s1 of
                (Some err, s2) \<Rightarrow> (Some err, s2)
              | (None, s2) \<Rightarrow>
                  (case Checker_Delete c R ctx ft fileTest3 ep s2 of
                     (Some err, s3) \<Rightarrow> (Some err, s3)
                   | (None, s3) \<Rightarrow> (None, s3))))"
    unfolding RunCheck_def fileTest1_def fileTest2_def fileTest3_def Let_def ..
  show ?thesis
  proof (cases e1)
    case (Some e)
    then have "err = Some e" "s' = s1" using assms u unfolding unfold by auto
    moreover have "runOk ?N ([(Upload, ft, ID ep)] @ [(Download, ft, ID ep), (Delete, ft, ID ep)]) t1 (Some e)"
      using runOk_abort[of ?N "[(Upload, ft, ID ep)]" t1 e] t1(2) Some by simp
    ultimately show ?thesis using t1(1) by (auto simp: checksOf_def)
  next
    case None
    note e1 = None
    obtain e2 s2 where d: "Checker_Download c R ctx ft fileTest3 ep s1 = (e2, s2)"
      by (cases "Checker_Download c R ctx ft fileTest3 ep s1")
    obtain t2 where t2: "trace s2 = trace s1 @ t2" "runOk ?N [(Download, ft, ID ep)] t2 e2"
      using Checker_Download_run[OF d np] by blast
    have r12: "runOk ?N ([(Upload, ft, ID ep)] @ [(Download, ft, ID ep)]) (t1 @ t2) e2"
      using runOk_seq[of ?N "[(Upload, ft, ID ep)]" t1 "[(Download, ft, ID ep)]" t2 e2] t1(2) t2(2) e1
      by simp
    show ?thesis
    proof (cases e2)
      case (Some e)
      then have "err = Some e" "s' = s2" using assms u d e1 unfolding unfold by auto
      moreover have "runOk ?N (([(Upload, ft, ID ep)] @ [(Download, ft, ID ep)]) @ [(Delete, ft, ID ep)])
          (t1 @ t2) (Some e)"
        using runOk_abort[of ?N "[(Upload, ft, ID ep)] @ [(Download, ft, ID ep)]" "t1 @ t2" e] r12 Some
        by simp
      ultimately show ?thesis using t1(1) t2(1) by (auto simp: checksOf_def)
    next
      case None
      obtain e3 s3 where x: "Checker_Delete c R ctx ft fileTest3 ep s2 = (e3, s3)"
        by (cases "Checker_Delete c R ctx ft fileTest3 ep s2")
      obtain t3 where t3: "trace s3 = trace s2 @ t3" "runOk ?N [(Delete, ft, ID ep)] t3 e3"
        using Checker_Delete_run[OF x] by blast
      have "err = e3" "s' = s3"
        using assms u d x e1 None unfolding unfold by (auto split: option.splits)
      moreover have "runOk ?N (([(Upload, ft, ID ep)] @ [(Download, ft, ID ep)]) @ [(Delete, ft, ID ep)])
          ((t1 @ t2) @ t3) e3"
        using runOk_seq[of ?N "[(Upload, ft, ID ep)] @ [(Download, ft, ID ep)]" "t1 @ t2"
            "[(Delete, ft, ID ep)]" t3 e3] r12 t3(2) None
        by simp
      ultimately show ?thesis using t1(1) t2(1) t3(1) by (auto simp: checksOf_def)
    qed
  qed
qed

lemma rangeEndpoints_run:
  assumes "rangeEndpoints c R ctx ft fileTest eps s = (err, s')"
  shows "\<exists>t. trace s' = trace s @ t \<and>
     runOk (\<forall>ep\<in>set eps. clientNamesErrors (Client ep))
       (concat (map (\<lambda>ep. checksOf ft (ID ep)) eps)) t err"
  using assms
proof (induction eps arbitrary: s)
  case Nil
  then show ?case by (simp add: runOk_nil)
next
  case (Cons ep eps)
  let ?N = "\<forall>ep\<in>set (ep # eps). clientNamesErrors (Client ep)"
  obtain e1 s1 where r: "RunCheck c R ctx ft fileTest ep s = (e1, s1)"
    by (cases "RunCheck c R ctx ft fileTest ep s")
  obtain t1 where t1: "trace s1 = trace s @ t1"
    "runOk (clientNamesErrors (Client ep)) (checksOf ft (ID ep)) t1 e1"
    using RunCheck_run[OF r] by blast
  have t1': "runOk ?N (checksOf ft (ID ep)) t1 e1"
    using t1(2) by (rule runOk_mono) simp
  show ?case
  proof (cases e1)
    case (Some e)
    then have "err = Some e" "s' = s1" using Cons.prems r by auto
    moreover have "runOk ?N (checksOf ft (ID ep) @ concat (map (\<lambda>ep. checksOf ft (ID ep)) eps)) t1 (Some e)"
      using runOk_abort[of ?N "checksOf ft (ID ep)" t1 e] t1' Some by simp
    ultimately show ?thesis using t1(1) by auto
  next
    case None
    then have rest: "rangeEndpoints c R ctx ft fileTest eps s1 = (err, s')"
      using Cons.prems r by simp
    obtain t2 where t2: "trace s' = trace s1 @ t2"
      "runOk (\<forall>ep\<in>set eps. clientNamesErrors (Client ep))
         (concat (map (\<lambda>ep. checksOf ft (ID ep)) eps)) t2 err"
      using Cons.IH[OF rest] by blast
    have t2': "runOk ?N (concat (map (\<lambda>ep. checksOf ft (ID ep)) eps)) t2 err"
      using t2(2) by (rule runOk_mono) simp
    have "runOk ?N (checksOf ft (ID ep) @ concat (map (\<lambda>ep. checksOf ft (ID ep)) eps)) (t1 @ t2) err"
      using runOk_seq[of ?N "checksOf ft (ID ep)" t1 _ t2 err] t1' t2' None by simp
    then show ?thesis using t1(1) t2(1) by auto
  qed
qed

lemma rangeFileTests_run:
  assumes "rangeFileTests c R ctx fts s = (err, s')"
  shows "\<exists>t. trace s' = trace s @ t \<and>
     runOk (\<forall>ep\<in>set (endpoints c). clientNamesErrors (Client ep))
       (concat (map (\<lambda>(ft, fileTest). concat (map (\<lambda>ep. checksOf ft (ID ep)) (endpoints c))) fts))
       t err"
  using assms
proof (induction fts arbitrary: s)
  case Nil
  then show ?case by (simp add: runOk_nil)
next
  case (Cons p fts)
  obtain ft fileTest where p: "p = (ft, fileTest)" by (cases p)
  let ?N = "\<forall>ep\<in>set (endpoints c). clientNamesErrors (Client ep)"
  let ?ks = "\<lambda>fts. concat (map (\<lambda>(ft, fileTest). concat (map (\<lambda>ep. checksOf ft (ID ep)) (endpoints c))) fts)"
  obtain e1 s1 where r: "rangeEndpoints c R ctx ft fileTest (endpoints c) s = (e1, s1)"
    by (cases "rangeEndpoints c R ctx ft fileTest (endpoints c) s")
  obtain t1 where t1: "trace s1 = trace s @ t1"
    "runOk ?N (concat (map (\<lambda>ep. checksOf ft (ID ep)) (endpoints c))) t1 e1"
    using rangeEndpoints_run[OF r] by blast
  show ?case
  proof (cases e1)
    case (Some e)
    then have "err = Some e" "s' = s1" using Cons.prems r p by auto
    moreover have "runOk ?N (concat (map (\<lambda>ep. checksOf ft (ID ep)) (endpoints c)) @ ?ks fts) t1 (Some e)"
      using runOk_abort[of ?N _ t1 e] t1(2) Some by simp
    ultimately show ?thesis using t1(1) p by auto
  next
    case None
    then have rest: "rangeFileTests c R ctx fts s1 = (err, s')"
      using Cons.prems r p by simp
    obtain t2 where t2: "trace s' = trace s1 @ t2" "runOk ?N (?ks fts) t2 err"
      using Cons.IH[OF rest] by blast
    have "runOk ?N (concat (map (\<lambda>ep. checksOf ft (ID ep)) (endpoints c)) @ ?ks fts) (t1 @ t2) err"
      using runOk_seq[of ?N _ t1 _ t2 err] t1(2) t2(2) None by simp
    then show ?thesis using t1(1) t2(1) p by auto
  qed
qed

lemma RunChecks_run:
  assumes "RunChecks c R ctx s = (err, s')"
  shows "\<exists>t. trace s' = trace s @ t \<and>
     runOk (\<forall>ep\<in>set (endpoints c). clientNamesErrors (Client ep)) (allChecks c) t err"
  using rangeFileTests_run[of c R ctx "fileTests c" s err s'] assms
  by (simp add: RunChecks_def allChecks_def)

section \<open>Claims about the report\<close>

text \<open>
  C1. In a report that \<open>formatResults\<close> returns, the cell of a file test, an operation and an
  endpoint is \<open>-\<close> when the store holds no result there; \<open>ERR\<close> when the result carries an
  error message, whatever its duration and success flag; for \<open>Delete\<close> the string of the
  duration; otherwise the throughput, computed in \<open>float64\<close> as size * 8 / 1000 / 1000 over
  the seconds of the duration and printed by \<open>FormatFloat\<close> in format \<open>f\<close> with two digits,
  followed by \<open> Mbps\<close>. The report is the sequence of the sections of the file tests, each
  with the table of these cells.
\<close>

theorem report_cells:
  assumes "formatResults L fileTestSizes results = Inr report"
    and "uniqueSortedIDs results = (fileTestIDs, endpointIDs, operations)"
  shows "report =
     spec_report
       (\<lambda>fileTestID operation endpointID.
          case lookupResult results fileTestID operation endpointID of
            None \<Rightarrow> ''-''
          | Some r \<Rightarrow>
              if Error r \<noteq> '''' then ''ERR''
              else if operation = Delete then Duration_String L (Duration r)
              else FormatFloat L
                     (f_div L
                        (f_div L
                           (f_div L
                              (f_mul L (float64 L (lookupSize fileTestSizes fileTestID)) (float64 L 8))
                              (float64 L 1000))
                           (float64 L 1000))
                        (Duration_Seconds L (Duration r)))
                     CHR ''f'' 2 64
                   @ '' Mbps'')
       fileTestIDs endpointIDs operations"
proof -
  have "cellText L fileTestSizes results =
    (\<lambda>fileTestID operation endpointID.
          case lookupResult results fileTestID operation endpointID of
            None \<Rightarrow> ''-''
          | Some r \<Rightarrow>
              if Error r \<noteq> '''' then ''ERR''
              else if operation = Delete then Duration_String L (Duration r)
              else FormatFloat L
                     (f_div L
                        (f_div L
                           (f_div L
                              (f_mul L (float64 L (lookupSize fileTestSizes fileTestID)) (float64 L 8))
                              (float64 L 1000))
                           (float64 L 1000))
                        (Duration_Seconds L (Duration r)))
                     CHR ''f'' 2 64
                   @ '' Mbps'')"
    by (intro ext) (simp add: cellText_def formatResultForRow_def Let_def split: option.splits)
  moreover have "report = spec_report (cellText L fileTestSizes results) fileTestIDs endpointIDs operations"
    using assms by (simp add: formatResults_eq split: if_splits)
  ultimately show ?thesis by simp
qed

theorem report_cells_witness:
  "formatResults exactLib testSizes2 (submitAll mixedReports) = Inr mixedExpected \<and>
   uniqueSortedIDs (submitAll mixedReports) = ([''ft1''], [''end1'', ''end2''], [Upload, Delete]) \<and>
   mixedExpected =
     spec_report
       (\<lambda>fileTestID operation endpointID.
          case lookupResult (submitAll mixedReports) fileTestID operation endpointID of
            None \<Rightarrow> ''-''
          | Some r \<Rightarrow>
              if Error r \<noteq> '''' then ''ERR''
              else if operation = Delete then time_Duration_String (Duration r)
              else xfloat_Format
                     (xfloat_div
                        (xfloat_div
                           (xfloat_div
                              (xfloat_mul (xfloat_of_int (lookupSize testSizes2 fileTestID))
                                 (xfloat_of_int 8))
                              (xfloat_of_int 1000))
                           (xfloat_of_int 1000))
                        (Finite (of_int (Duration r) / 1000000000)))
                     CHR ''f'' 2 64
                   @ '' Mbps'')
       [''ft1''] [''end1'', ''end2''] [Upload, Delete]"
  using report_cells[OF report_mixed ids_mixed, unfolded exactLib_def golib.select_convs]
    report_mixed ids_mixed
  by blast

text \<open>
  C5. The sections of the report follow the file-test identifiers in ascending order, the
  columns of every table the endpoint identifiers in ascending order, and the rows the
  operations in the order of their numbers, where \<open>Upload < Download < Delete\<close>; each list
  holds every key of the store once. This order does not depend on the order of the
  submissions: two sequences of the same submissions give the same three lists, and the
  same report when no place of the store is written twice.
\<close>

theorem report_order:
  assumes "uniqueSortedIDs results = (fileTestIDs, endpointIDs, operations)"
  shows "sorted_wrt (<) fileTestIDs \<and> set fileTestIDs = storeFileTestIDs results
       \<and> sorted_wrt (<) endpointIDs \<and> set endpointIDs = storeEndpointIDs results
       \<and> sorted_wrt (<) operations \<and> set operations = storeOperations results
       \<and> Upload < Download \<and> Download < Delete
       \<and> (\<forall>report. formatResults L fileTestSizes results = Inr report \<longrightarrow>
              report = spec_report (cellText L fileTestSizes results)
                         fileTestIDs endpointIDs operations)
       \<and> (\<forall>reports reports'. mset reports' = mset reports \<longrightarrow>
              uniqueSortedIDs (submitAll reports') = uniqueSortedIDs (submitAll reports))
       \<and> (\<forall>reports reports'. mset reports' = mset reports \<and> distinct (map reportKey reports) \<longrightarrow>
              formatResults L fileTestSizes (submitAll reports')
              = formatResults L fileTestSizes (submitAll reports))"
proof -
  have perm: "uniqueSortedIDs (submitAll reports') = uniqueSortedIDs (submitAll reports)"
    if "mset reports' = mset reports" for reports reports'
  proof -
    have "set reports' = set reports" using that by (rule mset_eq_setD)
    then show ?thesis by (simp add: uniqueSortedIDs_eq submitAll_keys)
  qed
  have rep: "report = spec_report (cellText L fileTestSizes results)
                         fileTestIDs endpointIDs operations"
    if "formatResults L fileTestSizes results = Inr report" for report
    using that assms by (simp add: formatResults_eq split: if_splits)
  have ord: "Upload < Download" "Download < Delete"
    by (simp_all add: Upload_def Download_def Delete_def)
  have full: "formatResults L fileTestSizes (submitAll reports')
              = formatResults L fileTestSizes (submitAll reports)"
    if "mset reports' = mset reports \<and> distinct (map reportKey reports)" for reports reports'
    using that by (intro formatResults_submitAll_perm) simp_all
  note s = sorted_ids[OF assms]
  show ?thesis
    apply (intro conjI allI impI)
    using s(1) apply blast
    using s(1) apply blast
    using s(2) apply blast
    using s(2) apply blast
    using s(3) apply blast
    using s(3) apply blast
    using ord(1) apply blast
    using ord(2) apply blast
    using rep apply blast
    using perm apply blast
    using full apply blast
    done
qed

theorem report_order_witness:
  "sorted_wrt (<) [''ft1'', ''ft2''] \<and> sorted_wrt (<) [''end1'', ''end2'']
   \<and> sorted_wrt (<) [Upload, Download]
   \<and> uniqueSortedIDs (submitAll (rev testReports1)) =
        ([''ft1'', ''ft2''], [''end1'', ''end2''], [Upload, Download])
   \<and> formatResults exactLib testSizes1 (submitAll (rev testReports1)) = Inr testExpected1"
proof -
  note t = report_order[OF ids_test1, of exactLib testSizes1]
  have m: "mset (rev testReports1) = mset testReports1" by simp
  have d: "distinct (map reportKey testReports1)"
    by (simp add: testReports1_def reportKey_def Upload_def Download_def)
  from t have "uniqueSortedIDs (submitAll (rev testReports1)) = uniqueSortedIDs (submitAll testReports1)"
    using m by blast
  moreover from t have "formatResults exactLib testSizes1 (submitAll (rev testReports1))
      = formatResults exactLib testSizes1 (submitAll testReports1)"
    using m d by blast
  ultimately show ?thesis
    using t by (simp add: ids_test1 report_test1)
qed

text \<open>
  C3, amended. If the store holds a result for a file test whose configured size is unknown
  or zero, \<open>formatResults\<close> returns no report but the error \<open>Unknown fileTestSize for\<close>
  followed by the least identifier among the file tests of the store without a size: the
  loop over the sorted identifiers returns at the first of them.
\<close>

theorem unknown_size_aborts:
  assumes "lookupResult results fileTestID operation endpointID = Some r"
    and "lookupSize fileTestSizes fileTestID = 0"
  shows "\<exists>first. first \<in> storeFileTestIDs results \<and> lookupSize fileTestSizes first = 0
           \<and> first \<le> fileTestID
           \<and> (\<forall>ft\<in>storeFileTestIDs results. lookupSize fileTestSizes ft = 0 \<longrightarrow> first \<le> ft)
           \<and> formatResults L fileTestSizes results
               = Inl (Err (''Unknown fileTestSize for '' @ first))"
proof -
  obtain fts eps ops where ids: "uniqueSortedIDs results = (fts, eps, ops)"
    by (metis prod_cases3)
  note s = sorted_ids[OF ids]
  note k = lookupResult_keys[OF assms(1)]
  let ?P = "\<lambda>ft. lookupSize fileTestSizes ft = 0"
  let ?first = "hd (filter ?P fts)"
  have in_fts: "fileTestID \<in> set fts" using s k by simp
  have ne: "ops \<noteq> []" "eps \<noteq> []" using s k by auto
  have first: "?first \<in> set fts \<and> ?P ?first \<and> (\<forall>y\<in>set fts. ?P y \<longrightarrow> ?first \<le> y)"
    by (rule hd_filter_sorted_least[where x = fileTestID]) (use s in_fts assms(2) in auto)
  have "formatResults L fileTestSizes results = Inl (unknownSize ?first)"
    using ne in_fts assms(2) by (auto simp: formatResults_eq ids)
  then show ?thesis
    using first s in_fts assms(2) by (intro exI[of _ ?first]) (auto simp: unknownSize_def)
qed

theorem unknown_size_aborts_witness:
  "formatResults exactLib Map.empty (submitAll unsizedReports)
     = Inl (Err ''Unknown fileTestSize for a'')"
proof -
  have r: "lookupResult (submitAll unsizedReports) ''b'' Upload ''end1'' = Some (okResult (5 * second))"
    by (simp add: store_unsized lookupResult_def)
  have z: "lookupSize Map.empty ''b'' = 0"
    by (simp add: lookupSize_def)
  have keys: "storeFileTestIDs (submitAll unsizedReports) = {''a'', ''b''}"
    by (auto simp: submitAll_keys unsizedReports_def)
  from unknown_size_aborts[OF r z, of exactLib] obtain first where
    f: "first \<in> storeFileTestIDs (submitAll unsizedReports)"
      "\<forall>ft\<in>storeFileTestIDs (submitAll unsizedReports). lookupSize Map.empty ft = 0 \<longrightarrow> first \<le> ft"
      "formatResults exactLib Map.empty (submitAll unsizedReports)
               = Inl (Err (''Unknown fileTestSize for '' @ first))"
    by blast
  have "first \<le> ''a''" using f(2) by (simp add: keys lookupSize_def)
  then have "first = ''a''" using f(1) by (auto simp: keys)
  then show ?thesis using f(3) by simp
qed

text \<open>
  C3 as stated fails for the second of two file tests without a size: \<open>b\<close> has a result
  and no size, and the error names \<open>a\<close>.
\<close>

theorem unknown_size_names_first_only:
  "lookupResult (submitAll unsizedReports) ''b'' Upload ''end1'' = Some (okResult (5 * second))
   \<and> lookupSize Map.empty ''b'' = 0
   \<and> formatResults exactLib Map.empty (submitAll unsizedReports)
       = Inl (Err ''Unknown fileTestSize for a'')
   \<and> formatResults exactLib Map.empty (submitAll unsizedReports)
       \<noteq> Inl (Err (''Unknown fileTestSize for '' @ ''b''))"
proof -
  have r: "lookupResult (submitAll unsizedReports) ''b'' Upload ''end1'' = Some (okResult (5 * second))"
    by (simp add: store_unsized lookupResult_def)
  show ?thesis
    unfolding report_unsized using r by (simp add: lookupSize_def)
qed

text \<open>
  C2, amended. A file test without any submission is no key of the store. It has no section
  in the report, and the size configured for it is never read: \<open>formatResults\<close> returns the
  same report or error whatever that size is, also when it is missing. The report consists
  of the sections of the file tests of the store.
\<close>

theorem unsubmitted_fileTest:
  assumes "fileTestID \<notin> storeFileTestIDs results"
    and "uniqueSortedIDs results = (fileTestIDs, endpointIDs, operations)"
  shows "fileTestID \<notin> set fileTestIDs
       \<and> formatResults L (fileTestSizes(fileTestID := n)) results
           = formatResults L fileTestSizes results
       \<and> (\<forall>report. formatResults L fileTestSizes results = Inr report \<longrightarrow>
              report = spec_report (cellText L fileTestSizes results)
                         fileTestIDs endpointIDs operations)"
proof -
  note s = sorted_ids[OF assms(2)]
  have notin: "fileTestID \<notin> set fileTestIDs" using s assms(1) by simp
  have sz: "lookupSize (fileTestSizes(fileTestID := n)) ft = lookupSize fileTestSizes ft"
    if "ft \<in> set fileTestIDs" for ft
    using that notin by (auto simp: lookupSize_def)
  have cell: "cellText L (fileTestSizes(fileTestID := n)) results ft = cellText L fileTestSizes results ft"
    if "ft \<in> set fileTestIDs" for ft
    using sz[OF that] by (intro ext) (simp add: cellText_def)
  have sec: "spec_section (cellText L (fileTestSizes(fileTestID := n)) results) endpointIDs operations ft
      = spec_section (cellText L fileTestSizes results) endpointIDs operations ft"
    if "ft \<in> set fileTestIDs" for ft
    using cell[OF that] by (simp add: spec_section_def spec_tableRows_def)
  have rep: "spec_report (cellText L (fileTestSizes(fileTestID := n)) results)
               fileTestIDs endpointIDs operations
           = spec_report (cellText L fileTestSizes results) fileTestIDs endpointIDs operations"
    unfolding spec_report_def using sec by (simp cong: map_cong)
  have fil: "filter (\<lambda>ft. lookupSize (fileTestSizes(fileTestID := n)) ft = 0) fileTestIDs
           = filter (\<lambda>ft. lookupSize fileTestSizes ft = 0) fileTestIDs"
    using sz by (simp cong: filter_cong)
  have ex: "(\<exists>ft\<in>set fileTestIDs. lookupSize (fileTestSizes(fileTestID := n)) ft = 0)
          = (\<exists>ft\<in>set fileTestIDs. lookupSize fileTestSizes ft = 0)"
    using sz by auto
  have same: "formatResults L (fileTestSizes(fileTestID := n)) results
           = formatResults L fileTestSizes results"
    unfolding formatResults_eq assms(2) by (simp only: prod.case rep fil ex)
  have "report = spec_report (cellText L fileTestSizes results) fileTestIDs endpointIDs operations"
    if "formatResults L fileTestSizes results = Inr report" for report
    using that assms(2) by (simp add: formatResults_eq split: if_splits)
  then show ?thesis using notin same by blast
qed

theorem unsubmitted_fileTest_witness:
  "''ft2'' \<notin> set [''ft1'']
   \<and> formatResults exactLib (testSizes2(''ft2'' \<mapsto> 20000000)) (submitAll testReports2)
       = Inr testExpected2"
proof -
  have k: "''ft2'' \<notin> storeFileTestIDs (submitAll testReports2)"
    by (simp add: submitAll_keys testReports2_def)
  show ?thesis
    using unsubmitted_fileTest[OF k ids_test2, of exactLib testSizes2 "Some 20000000"]
    by (simp add: report_test2 sizes_test2)
qed

text \<open>
  C2 as stated fails: with the sizes of \<open>ft1\<close> and \<open>ft2\<close> configured and one submission for
  \<open>ft1\<close>, the report is the section of \<open>ft1\<close> and does not mention \<open>ft2\<close>.
\<close>

theorem unsubmitted_fileTest_has_no_section:
  "testSizes1 ''ft2'' = Some 20000000
   \<and> ''ft2'' \<notin> storeFileTestIDs (submitAll testReports2)
   \<and> formatResults exactLib testSizes1 (submitAll testReports2) = Inr testExpected2
   \<and> \<not> sublist ''ft2'' testExpected2"
proof -
  have "\<not> sublist ''ft2'' testExpected2"
    unfolding testExpected2_def by code_simp
  moreover have "formatResults exactLib testSizes1 (submitAll testReports2) = Inr testExpected2"
    by (rule report_test2) (rule sizes_test1)
  moreover have "testSizes1 ''ft2'' = Some 20000000"
    by (simp add: testSizes1_def)
  moreover have "''ft2'' \<notin> storeFileTestIDs (submitAll testReports2)"
    by (simp add: submitAll_keys testReports2_def)
  ultimately show ?thesis by blast
qed
section \<open>Claims about the table\<close>

text \<open>
  C8. \<open>MakeTable\<close> returns an error whenever some row has a different number of columns from
  the header row. It does so when the header row has a column (\<open>MakeTable_ragged\<close>); a header
  row without columns leaves \<open>numColumns\<close> at its initial 0, the next row sets it, and the
  differing rows are rendered: here a header of no columns over a row of one.
\<close>

theorem MakeTable_empty_header_not_rejected:
  "MakeTable [[], [''a'']] ''-'' = Inr ''-\<newline>a\<newline>''"
  by code_simp

text \<open>
  C9. For a header row with at least one column and rows that all have the header's number of
  columns, \<open>MakeTable\<close> returns the table of the specification: every column as wide as its
  longest entry, every cell but the last of a line filled to that width plus 5 spaces, the
  last cell ending the line, and under the header line the separator repeated over the sum
  of the column widths plus 5 times the number of columns less one, or no such line for the
  empty separator.
\<close>

theorem MakeTable_layout:
  assumes "hdr \<noteq> []" and "\<forall>row\<in>set rest. length row = length hdr"
  shows "MakeTable (hdr # rest) headerSeperator = Inr (spec_tableText (hdr # rest) headerSeperator)"
  using assms by (rule MakeTable_tableText)

theorem MakeTable_layout_witness:
  "MakeTable [[''this'', ''is'', ''a'', ''header''],
              [''here'', ''we'', ''find'', ''row2''],
              [''different'', ''items'', ''a'', ''b'']] ''-'' =
   Inr (''this          is        a        header\<newline>'' @
        ''---------------------------------------\<newline>'' @
        ''here          we        find     row2\<newline>'' @
        ''different     items     a        b\<newline>'')"
proof -
  have "MakeTable ([''this'', ''is'', ''a'', ''header''] #
              [[''here'', ''we'', ''find'', ''row2''],
               [''different'', ''items'', ''a'', ''b'']]) ''-'' =
    Inr (spec_tableText ([''this'', ''is'', ''a'', ''header''] #
              [[''here'', ''we'', ''find'', ''row2''],
               [''different'', ''items'', ''a'', ''b'']]) ''-'')"
    by (rule MakeTable_layout) simp_all
  also have "spec_tableText ([''this'', ''is'', ''a'', ''header''] #
              [[''here'', ''we'', ''find'', ''row2''],
               [''different'', ''items'', ''a'', ''b'']]) ''-'' =
        ''this          is        a        header\<newline>'' @
        ''---------------------------------------\<newline>'' @
        ''here          we        find     row2\<newline>'' @
        ''different     items     a        b\<newline>''"
    by code_simp
  finally show ?thesis .
qed


end
